theory Spec2Isabelle
  imports Main "HOL-Library.AList" "HOL-Library.Multiset"
begin

section \<open>Values, exceptions and the network\<close>

text \<open>
  Python values that come out of \<^verbatim>\<open>response.json()\<close>. A dict is an association list in
  insertion order. Numbers are restricted to integers.
\<close>

datatype json =
  JNull
  | JBool bool
  | JNum int
  | JStr string
  | JList "json list"
  | JDict "(string \<times> json) list"

text \<open>
  Exceptions carry the text that \<^verbatim>\<open>str(exc)\<close> yields. \<open>SQLAlchemyError\<close> stands for any
  exception raised by the storage session, \<open>ValueError\<close> for a body that is not JSON.
\<close>

datatype pyexc =
  AttributeError string
  | TypeError string
  | KeyError string
  | IndexError string
  | ValueError string
  | SQLAlchemyError string

fun str_exc :: "pyexc \<Rightarrow> string" where
  "str_exc (AttributeError m) = m"
| "str_exc (TypeError m) = m"
| "str_exc (KeyError m) = m"
| "str_exc (IndexError m) = m"
| "str_exc (ValueError m) = m"
| "str_exc (SQLAlchemyError m) = m"

text \<open>
  One HTTP exchange either yields a response (status code and body; the body is \<open>None\<close>
  when it is not valid JSON) or raises \<^verbatim>\<open>requests.exceptions.RequestException\<close>.
\<close>

record response =
  status_code :: nat
  body :: "json option"

datatype http_outcome = Response response | RequestException string

section \<open>Resilient fetcher: \<^verbatim>\<open>safe_get\<close>\<close>

text \<open>
  The observable behaviour of one call is its return value together with the sequence of
  requests sent and sleeps taken. Sleep durations are in milliseconds, so
  \<^verbatim>\<open>time.sleep(2 * attempt)\<close> is \<open>Sleep (2000 * attempt)\<close> and
  \<^verbatim>\<open>time.sleep(0.5 * attempt)\<close> is \<open>Sleep (500 * attempt)\<close>. The argument \<open>net\<close> gives the
  outcome of the request sent at each attempt number. Request headers and the timeout do
  not influence the control flow and are left out.
\<close>

datatype event = Get nat | Sleep nat

type_synonym get_result = "response option \<times> event list"

definition and_then :: "event list \<Rightarrow> get_result \<Rightarrow> get_result" where
  "and_then evs r = (fst r, evs @ snd r)"

function safe_get_from :: "(nat \<Rightarrow> http_outcome) \<Rightarrow> nat \<Rightarrow> nat \<Rightarrow> get_result" where
  "safe_get_from net retries attempt =
     (if retries < attempt then (None, [])
      else
        (case net attempt of
           Response r \<Rightarrow>
             if status_code r = 200 then (Some r, [Get attempt])
             else if status_code r = 429 then
               and_then [Get attempt, Sleep (2000 * attempt)]
                 (safe_get_from net retries (Suc attempt))
             else if status_code r = 404 then (Some r, [Get attempt])
             else if status_code r = 401 \<or> status_code r = 403 then (None, [Get attempt])
             else if attempt < retries then
               and_then [Get attempt, Sleep (500 * attempt)]
                 (safe_get_from net retries (Suc attempt))
             else and_then [Get attempt] (safe_get_from net retries (Suc attempt))
         | RequestException e \<Rightarrow>
             if attempt < retries then
               and_then [Get attempt, Sleep (500 * attempt)]
                 (safe_get_from net retries (Suc attempt))
             else and_then [Get attempt] (safe_get_from net retries (Suc attempt))))"
  by pat_completeness auto
termination
  by (relation "measure (\<lambda>(net, retries, attempt). Suc retries - attempt)") auto

definition safe_get :: "(nat \<Rightarrow> http_outcome) \<Rightarrow> nat \<Rightarrow> get_result" where
  "safe_get net retries = safe_get_from net retries 1"

definition default_retries :: nat where
  "default_retries = 3"

text \<open>Classification of one outcome by the status policy.\<close>

definition is_final :: "http_outcome \<Rightarrow> bool" where
  "is_final out =
     (case out of
        Response r \<Rightarrow> status_code r \<in> {200, 404, 401, 403}
      | RequestException e \<Rightarrow> False)"

definition final_value :: "http_outcome \<Rightarrow> response option" where
  "final_value out =
     (case out of
        Response r \<Rightarrow> if status_code r = 200 \<or> status_code r = 404 then Some r else None
      | RequestException e \<Rightarrow> None)"

definition is_429 :: "http_outcome \<Rightarrow> bool" where
  "is_429 out = (case out of Response r \<Rightarrow> status_code r = 429 | RequestException e \<Rightarrow> False)"

definition backoff :: "nat \<Rightarrow> http_outcome \<Rightarrow> nat \<Rightarrow> event list" where
  "backoff retries out attempt =
     (if is_429 out then [Sleep (2000 * attempt)]
      else if attempt < retries then [Sleep (500 * attempt)]
      else [])"

definition status_only :: "nat \<Rightarrow> http_outcome" where
  "status_only c = Response \<lparr>status_code = c, body = None\<rparr>"

definition net_429_429_200 :: "nat \<Rightarrow> http_outcome" where
  "net_429_429_200 k = (if k = 3 then status_only 200 else status_only 429)"

definition net_500 :: "nat \<Rightarrow> http_outcome" where
  "net_500 k = (if k = 2 then RequestException ''timeout'' else status_only 500)"

section \<open>Python value operations\<close>

text \<open>
  The operations below are the ones the source applies to parsed JSON. Each one that
  Python can refuse on a value of the wrong type returns the exception as a value.
\<close>

fun truthy :: "json \<Rightarrow> bool" where
  "truthy JNull = False"
| "truthy (JBool b) = b"
| "truthy (JNum n) = (n \<noteq> 0)"
| "truthy (JStr s) = (s \<noteq> [])"
| "truthy (JList xs) = (xs \<noteq> [])"
| "truthy (JDict kvs) = (kvs \<noteq> [])"

fun type_name :: "json \<Rightarrow> string" where
  "type_name JNull = ''NoneType''"
| "type_name (JBool b) = ''bool''"
| "type_name (JNum n) = ''int''"
| "type_name (JStr s) = ''str''"
| "type_name (JList xs) = ''list''"
| "type_name (JDict kvs) = ''dict''"

definition quoted :: "string \<Rightarrow> string" where
  "quoted s = CHR 0x27 # s @ [CHR 0x27]"

definition no_attribute :: "json \<Rightarrow> string \<Rightarrow> pyexc" where
  "no_attribute v a =
     AttributeError (quoted (type_name v) @ '' object has no attribute '' @ quoted a)"

definition not_iterable :: "json \<Rightarrow> pyexc" where
  "not_iterable v = TypeError (quoted (type_name v) @ '' object is not iterable'')"

text \<open>\<^verbatim>\<open>x or y\<close>\<close>

definition py_or :: "json \<Rightarrow> json \<Rightarrow> json" where
  "py_or x y = (if truthy x then x else y)"

text \<open>Sequencing of computations that may raise.\<close>

definition bind_exc :: "pyexc + 'a \<Rightarrow> ('a \<Rightarrow> pyexc + 'b) \<Rightarrow> pyexc + 'b" where
  "bind_exc m f = (case m of Inl e \<Rightarrow> Inl e | Inr v \<Rightarrow> f v)"

text \<open>\<^verbatim>\<open>d.get(k, dflt)\<close> and \<^verbatim>\<open>d.get(k)\<close>\<close>

fun get_default :: "json \<Rightarrow> string \<Rightarrow> json \<Rightarrow> pyexc + json" where
  "get_default (JDict kvs) k dflt = Inr (case map_of kvs k of Some v \<Rightarrow> v | None \<Rightarrow> dflt)"
| "get_default v k dflt = Inl (no_attribute v ''get'')"

definition py_get :: "json \<Rightarrow> string \<Rightarrow> pyexc + json" where
  "py_get d k = get_default d k JNull"

text \<open>\<^verbatim>\<open>d.get(k) or {}\<close> and \<^verbatim>\<open>(d.get(k) or {}).get(k2)\<close>\<close>

definition get_or_empty :: "json \<Rightarrow> string \<Rightarrow> pyexc + json" where
  "get_or_empty d k = bind_exc (py_get d k) (\<lambda>v. Inr (py_or v (JDict [])))"

definition get_in :: "json \<Rightarrow> string \<Rightarrow> string \<Rightarrow> pyexc + json" where
  "get_in d k k2 = bind_exc (get_or_empty d k) (\<lambda>v. py_get v k2)"

text \<open>The sequence a \<^verbatim>\<open>for\<close> loop runs over.\<close>

fun py_iter :: "json \<Rightarrow> pyexc + json list" where
  "py_iter (JList xs) = Inr xs"
| "py_iter (JDict kvs) = Inr (map (\<lambda>kv. JStr (fst kv)) kvs)"
| "py_iter (JStr s) = Inr (map (\<lambda>c. JStr [c]) s)"
| "py_iter v = Inl (not_iterable v)"

text \<open>\<^verbatim>\<open>d.values()\<close>\<close>

fun py_values :: "json \<Rightarrow> pyexc + json list" where
  "py_values (JDict kvs) = Inr (map snd kvs)"
| "py_values v = Inl (no_attribute v ''values'')"

text \<open>\<^verbatim>\<open>isinstance(val, dict) and key in val\<close>\<close>

fun dict_with_key :: "string \<Rightarrow> json \<Rightarrow> bool" where
  "dict_with_key k (JDict kvs) = (k \<in> fst ` set kvs)"
| "dict_with_key k v = False"

text \<open>\<^verbatim>\<open>x in ids\<close> for a list of strings\<close>

fun in_strings :: "json \<Rightarrow> string list \<Rightarrow> bool" where
  "in_strings (JStr s) ids = (s \<in> set ids)"
| "in_strings v ids = False"

text \<open>
  A loop that sets a flag and leaves at the first element for which the test holds; an
  exception raised by the test leaves the loop as well.
\<close>

fun first_match :: "('a \<Rightarrow> pyexc + bool) \<Rightarrow> 'a list \<Rightarrow> pyexc + bool" where
  "first_match f [] = Inr False"
| "first_match f (x # xs) =
     (case f x of
        Inl e \<Rightarrow> Inl e
      | Inr b \<Rightarrow> if b then Inr True else first_match f xs)"

section \<open>Affiliation classifier: \<^verbatim>\<open>_extract_status_from_profile\<close>\<close>

record researcher_status =
  rs_ror_id :: string
  rs_orcid :: string
  is_managed_by_am :: bool

definition sections_to_check :: "string list" where
  "sections_to_check =
     [''employments'', ''educations'', ''qualifications'', ''invited-positions'',
      ''distinctions'', ''memberships'', ''services'']"

definition summary_managed :: "string list \<Rightarrow> json \<Rightarrow> pyexc + bool" where
  "summary_managed trusted_ids summary =
     bind_exc (py_values summary) (\<lambda>vals.
       case find (dict_with_key ''source'') vals of
         None \<Rightarrow> Inr False
       | Some item_data \<Rightarrow>
           bind_exc (get_or_empty item_data ''source'') (\<lambda>source.
           bind_exc (get_in source ''source-client-id'' ''path'') (\<lambda>source_client_path.
             Inr (truthy source_client_path \<and> in_strings source_client_path trusted_ids))))"

definition group_managed :: "string list \<Rightarrow> json \<Rightarrow> pyexc + bool" where
  "group_managed trusted_ids grp =
     bind_exc (get_default grp ''summaries'' (JList [])) (\<lambda>summaries.
     bind_exc (py_iter summaries) (first_match (summary_managed trusted_ids)))"

definition section_managed :: "string list \<Rightarrow> json \<Rightarrow> string \<Rightarrow> pyexc + bool" where
  "section_managed trusted_ids activities section =
     bind_exc (get_or_empty activities section) (\<lambda>section_data.
     bind_exc (get_default section_data ''affiliation-group'' (JList [])) (\<lambda>groups.
     bind_exc (py_iter groups) (first_match (group_managed trusted_ids))))"

definition is_managed :: "json \<Rightarrow> string list \<Rightarrow> pyexc + bool" where
  "is_managed profile_data trusted_ids =
     bind_exc (get_or_empty profile_data ''activities-summary'') (\<lambda>activities.
       first_match (section_managed trusted_ids activities) sections_to_check)"

definition extract_status_from_profile ::
  "json \<Rightarrow> string \<Rightarrow> string \<Rightarrow> string list \<Rightarrow> pyexc + researcher_status" where
  "extract_status_from_profile profile_data ror_id orcid trusted_ids =
     bind_exc (is_managed profile_data trusted_ids) (\<lambda>m.
       Inr \<lparr>rs_ror_id = ror_id, rs_orcid = orcid, is_managed_by_am = m\<rparr>)"

text \<open>
  The classification in the words of the specification, as a total predicate on
  documents. \<open>field\<close> and \<open>elems\<close> read a document leniently: a missing key, or a value
  that is not of the expected kind, reads as nothing.
\<close>

fun field :: "json \<Rightarrow> string \<Rightarrow> json" where
  "field (JDict kvs) k = (case map_of kvs k of Some v \<Rightarrow> v | None \<Rightarrow> JNull)"
| "field v k = JNull"

fun elems :: "json \<Rightarrow> json list" where
  "elems (JList xs) = xs"
| "elems v = []"

fun nested_objects :: "json \<Rightarrow> json list" where
  "nested_objects (JDict kvs) = map snd kvs"
| "nested_objects v = []"

definition client_path :: "json \<Rightarrow> json" where
  "client_path obj = field (field (field obj ''source'') ''source-client-id'') ''path''"

definition all_summaries :: "json \<Rightarrow> json list" where
  "all_summaries profile_data =
     concat (map (\<lambda>section.
       concat (map (\<lambda>grp. elems (field grp ''summaries''))
         (elems (field (field (field profile_data ''activities-summary'') section)
            ''affiliation-group''))))
       sections_to_check)"

text \<open>Some nested object with a \<open>source\<close> field has a trusted client-id path.\<close>

definition some_source_trusted :: "string list \<Rightarrow> json \<Rightarrow> bool" where
  "some_source_trusted trusted_ids profile_data =
     (\<exists>summary \<in> set (all_summaries profile_data).
        \<exists>obj \<in> set (nested_objects summary).
          dict_with_key ''source'' obj \<and> in_strings (client_path obj) trusted_ids)"

text \<open>
  The first nested object with a \<open>source\<close> field has a non-empty trusted client-id path.
\<close>

definition first_source_trusted :: "string list \<Rightarrow> json \<Rightarrow> bool" where
  "first_source_trusted trusted_ids profile_data =
     (\<exists>summary \<in> set (all_summaries profile_data).
        case find (dict_with_key ''source'') (nested_objects summary) of
          None \<Rightarrow> False
        | Some obj \<Rightarrow> truthy (client_path obj) \<and> in_strings (client_path obj) trusted_ids)"

text \<open>
  Documents of the registry's shape. Keys may be absent anywhere. A section is an object
  or null, its groups and their summaries are lists of objects, and the \<open>source\<close> and
  \<open>source-client-id\<close> of a located summary item are objects or null.
\<close>

fun object_or_null :: "json \<Rightarrow> bool" where
  "object_or_null JNull = True"
| "object_or_null (JDict kvs) = True"
| "object_or_null v = False"

fun is_object :: "json \<Rightarrow> bool" where
  "is_object (JDict kvs) = True"
| "is_object v = False"

fun absent_or_objects :: "json \<Rightarrow> string \<Rightarrow> bool" where
  "absent_or_objects (JDict kvs) k =
     (case map_of kvs k of
        None \<Rightarrow> True
      | Some (JList xs) \<Rightarrow> list_all is_object xs
      | Some v \<Rightarrow> False)"
| "absent_or_objects v k = True"

definition summary_shaped :: "json \<Rightarrow> bool" where
  "summary_shaped summary =
     (case find (dict_with_key ''source'') (nested_objects summary) of
        None \<Rightarrow> True
      | Some obj \<Rightarrow>
          object_or_null (field obj ''source'') \<and>
          object_or_null (field (field obj ''source'') ''source-client-id''))"

definition profile_shaped :: "json \<Rightarrow> bool" where
  "profile_shaped profile_data =
     (is_object profile_data \<and>
      object_or_null (field profile_data ''activities-summary'') \<and>
      (\<forall>section \<in> set sections_to_check.
         let section_data = field (field profile_data ''activities-summary'') section in
         object_or_null section_data \<and>
         absent_or_objects section_data ''affiliation-group'' \<and>
         (\<forall>grp \<in> set (elems (field section_data ''affiliation-group'')).
            absent_or_objects grp ''summaries'' \<and>
            (\<forall>summary \<in> set (elems (field grp ''summaries'')). summary_shaped summary))))"

text \<open>Example documents for the classifier.\<close>

definition source_obj :: "string \<Rightarrow> json" where
  "source_obj cid =
     JDict [(''source'', JDict [(''source-client-id'', JDict [(''path'', JStr cid)])])]"

definition profile_with_summary :: "json \<Rightarrow> json" where
  "profile_with_summary summary =
     JDict [(''activities-summary'',
       JDict [(''employments'',
         JDict [(''affiliation-group'', JList [JDict [(''summaries'', JList [summary])]])])])]"

definition managed_profile :: json where
  "managed_profile =
     profile_with_summary (JDict [(''employment-summary'', source_obj ''APP-TRUSTED'')])"

definition two_sources_profile :: json where
  "two_sources_profile =
     profile_with_summary
       (JDict [(''created-by'', source_obj ''APP-OTHER''),
               (''employment-summary'', source_obj ''APP-TRUSTED'')])"

definition summary_trusted :: "string list \<Rightarrow> json \<Rightarrow> bool" where
  "summary_trusted t summary =
     (case find (dict_with_key ''source'') (nested_objects summary) of
          None \<Rightarrow> False
        | Some obj \<Rightarrow> truthy (client_path obj) \<and> in_strings (client_path obj) t)"

definition group_trusted :: "string list \<Rightarrow> json \<Rightarrow> bool" where
  "group_trusted t g = (\<exists>s \<in> set (elems (field g ''summaries'')). summary_trusted t s)"

definition section_trusted :: "string list \<Rightarrow> json \<Rightarrow> string \<Rightarrow> bool" where
  "section_trusted t activities section =
     (\<exists>g \<in> set (elems (field (field activities section) ''affiliation-group'')). group_trusted t g)"

definition untrusted_summary :: json where
  "untrusted_summary = JDict [(''employment-summary'', source_obj ''APP-OTHER'')]"

definition trusted_summary :: json where
  "trusted_summary = JDict [(''employment-summary'', source_obj ''APP-TRUSTED'')]"

definition empty_path_profile :: json where
  "empty_path_profile = profile_with_summary (JDict [(''employment-summary'', source_obj [])])"

text \<open>
  \<^verbatim>\<open>str.strip()\<close>: the characters Python treats as whitespace, among code points below 256.
\<close>

definition is_space :: "char \<Rightarrow> bool" where
  "is_space c = ((of_char c :: nat) \<in> {9, 10, 11, 12, 13, 28, 29, 30, 31, 32, 133, 160})"

definition py_strip :: "string \<Rightarrow> string" where
  "py_strip s = rev (dropWhile is_space (rev (dropWhile is_space s)))"

fun strip_value :: "json \<Rightarrow> pyexc + string" where
  "strip_value (JStr s) = Inr (py_strip s)"
| "strip_value v = Inl (no_attribute v ''strip'')"

text \<open>
  One clause of the search query. The query \<^verbatim>\<open>" OR ".join(query_parts)\<close> is kept as the
  list of its clauses; \<open>RorClause r\<close> stands for \<^verbatim>\<open>ror-org-id:"https://ror.org/r"\<close> and
  \<open>GridClause g\<close> for \<^verbatim>\<open>grid-org-id:"g"\<close>.
\<close>

datatype clause = RorClause string | GridClause json

text \<open>
  Configuration and surroundings of one invocation: the application settings read by the
  core, the outcome of every request the upstream services can receive (for the
  registries, by attempt number), and the order in which the worker pool completes its
  tasks. \<open>cached_token\<close> is the token held in memory when it has not yet expired, and
  \<open>JNull\<close> otherwise; \<open>token_api\<close> is the outcome of the request to the token endpoint.
\<close>

record env =
  ORCID_SEARCH_URL :: "string option"
  ORCID_MEMBER_URL :: "string option"
  ORCID_CLIENT_ID :: "string option"
  ORCID_TOKEN_URL :: "string option"
  ORCID_CLIENT_SECRET :: "string option"
  cached_token :: json
  token_api :: http_outcome
  ror_api :: "string \<Rightarrow> http_outcome"
  search_api :: "clause list \<Rightarrow> nat \<Rightarrow> nat \<Rightarrow> http_outcome"
  record_api :: "string \<Rightarrow> nat \<Rightarrow> http_outcome"
  as_completed :: "string list \<Rightarrow> string list"

section \<open>Registry search: \<^verbatim>\<open>list_orcids_for_institution\<close>\<close>

text \<open>\<^verbatim>\<open>(record.get("orcid-id") or "").strip()\<close>\<close>

definition record_key :: "json \<Rightarrow> pyexc + string" where
  "record_key record =
     bind_exc (py_get record ''orcid-id'') (\<lambda>v. strip_value (py_or v (JStr [])))"

text \<open>
  The assignments \<^verbatim>\<open>unique_results[orcid_id] = record\<close> made while running over one chunk,
  in order, and whether the loop over the chunk ended without an exception.
\<close>

fun chunk_assignments :: "json list \<Rightarrow> (string \<times> json) list \<times> bool" where
  "chunk_assignments [] = ([], True)"
| "chunk_assignments (record # records) =
     (case record_key record of
        Inl e \<Rightarrow> ([], False)
      | Inr orcid_id \<Rightarrow>
          (let (rest, ok) = chunk_assignments records
           in ((if orcid_id \<noteq> [] then [(orcid_id, record)] else []) @ rest, ok)))"

fun py_len :: "json \<Rightarrow> nat" where
  "py_len (JList xs) = length xs"
| "py_len (JDict kvs) = length kvs"
| "py_len (JStr s) = length s"
| "py_len v = 0"

text \<open>
  One pass through the body of the pagination loop, given the outcomes of the requests for
  this page: the assignments made and whether the loop goes on to the next page. Every
  exception inside the body is caught and ends the loop.
\<close>

definition page_assignments ::
  "(nat \<Rightarrow> http_outcome) \<Rightarrow> nat \<Rightarrow> (string \<times> json) list \<times> bool" where
  "page_assignments net rows =
     (case fst (safe_get net default_retries) of
        None \<Rightarrow> ([], False)
      | Some response \<Rightarrow>
          if status_code response \<noteq> 200 then ([], False)
          else
            (case body response of
               None \<Rightarrow> ([], False)
             | Some data \<Rightarrow>
                 (case get_default data ''expanded-result'' (JList []) of
                    Inl e \<Rightarrow> ([], False)
                  | Inr c \<Rightarrow>
                      (let chunk = py_or c (JList []) in
                       if \<not> truthy chunk then ([], False)
                       else
                         (case py_iter chunk of
                            Inl e \<Rightarrow> ([], False)
                          | Inr records \<Rightarrow>
                              (let (assigned, ok) = chunk_assignments records in
                               if \<not> ok then (assigned, False)
                               else if py_len chunk < rows then (assigned, False)
                               else (assigned, True)))))))"

text \<open>\<^verbatim>\<open>unique_results[k] = v\<close> on an insertion-ordered dict, for a run of assignments.\<close>

definition assign_all :: "(string \<times> json) list \<Rightarrow> (string \<times> json) list \<Rightarrow> (string \<times> json) list" where
  "assign_all unique_results assigned =
     foldl (\<lambda>d kv. AList.update (fst kv) (snd kv) d) unique_results assigned"

partial_function (option) search_pages ::
  "(nat \<Rightarrow> nat \<Rightarrow> http_outcome) \<Rightarrow> nat \<Rightarrow> nat \<Rightarrow> (string \<times> json) list
     \<Rightarrow> (string \<times> json) list option" where
  "search_pages api rows start unique_results =
     (case page_assignments (api start) rows of
        (assigned, continue) \<Rightarrow>
          if continue then search_pages api rows (start + rows) (assign_all unique_results assigned)
          else Some (assign_all unique_results assigned))"

definition query_parts :: "string \<Rightarrow> json \<Rightarrow> clause list" where
  "query_parts ror_id grid_id =
     (if ror_id \<noteq> [] then [RorClause ror_id] else []) @
     (if truthy grid_id then [GridClause grid_id] else [])"

definition py_or_str :: "string option \<Rightarrow> string \<Rightarrow> string" where
  "py_or_str a b = (case a of None \<Rightarrow> b | Some s \<Rightarrow> if s \<noteq> [] then s else b)"

definition default_rows :: nat where
  "default_rows = 1000"

definition list_orcids_for_institution ::
  "env \<Rightarrow> string \<Rightarrow> json \<Rightarrow> string \<Rightarrow> nat \<Rightarrow> json list option" where
  "list_orcids_for_institution e ror_id grid_id base_url rows =
     (let search_url = py_or_str (ORCID_SEARCH_URL e) base_url in
      if search_url = [] then Some []
      else if query_parts ror_id grid_id = [] then Some []
      else map_option (map snd)
             (search_pages (search_api e (query_parts ror_id grid_id)) rows 0 []))"


text \<open>
  The page requested at offset \<open>start + i * rows\<close>, the assignments of the first \<open>n\<close> pages,
  and the statement that page \<open>n\<close> is the first one after which the loop ends.
\<close>

definition page_at ::
  "(nat \<Rightarrow> nat \<Rightarrow> http_outcome) \<Rightarrow> nat \<Rightarrow> nat \<Rightarrow> nat \<Rightarrow> (string \<times> json) list \<times> bool" where
  "page_at api rows start i = page_assignments (api (start + i * rows)) rows"

definition pages_assigned ::
  "(nat \<Rightarrow> nat \<Rightarrow> http_outcome) \<Rightarrow> nat \<Rightarrow> nat \<Rightarrow> nat \<Rightarrow> (string \<times> json) list" where
  "pages_assigned api rows start n = concat (map (\<lambda>i. fst (page_at api rows start i)) [0..<n])"

definition stops_at :: "(nat \<Rightarrow> nat \<Rightarrow> http_outcome) \<Rightarrow> nat \<Rightarrow> nat \<Rightarrow> nat \<Rightarrow> bool" where
  "stops_at api rows start n =
     ((\<forall>i < n. snd (page_at api rows start i)) \<and> \<not> snd (page_at api rows start n))"



definition search_performed :: "env \<Rightarrow> string \<Rightarrow> json \<Rightarrow> string \<Rightarrow> bool" where
  "search_performed e ror_id grid_id base_url =
     (py_or_str (ORCID_SEARCH_URL e) base_url \<noteq> [] \<and> query_parts ror_id grid_id \<noteq> [])"

definition institution_api :: "env \<Rightarrow> string \<Rightarrow> json \<Rightarrow> nat \<Rightarrow> nat \<Rightarrow> http_outcome" where
  "institution_api e ror_id grid_id = search_api e (query_parts ror_id grid_id)"

text \<open>Example: two search pages of size two that overlap in one identifier.\<close>

definition person :: "string \<Rightarrow> string \<Rightarrow> json" where
  "person oid name = JDict [(''orcid-id'', JStr oid), (''given-names'', JStr name)]"

definition ok_json :: "json \<Rightarrow> http_outcome" where
  "ok_json v = Response \<lparr>status_code = 200, body = Some v\<rparr>"

definition two_pages_api :: "nat \<Rightarrow> nat \<Rightarrow> http_outcome" where
  "two_pages_api start attempt =
     (if start = 0 then
        ok_json (JDict [(''expanded-result'',
          JList [person ''0000-0001'' ''Ana'', person ''0000-0002'' ''Luis''])])
      else if start = 2 then
        ok_json (JDict [(''expanded-result'', JList [person '' 0000-0001'' ''Ana B''])])
      else status_only 404)"

definition search_env :: env where
  "search_env =
     \<lparr>ORCID_SEARCH_URL = None, ORCID_MEMBER_URL = None, ORCID_CLIENT_ID = None,
      ORCID_TOKEN_URL = None, ORCID_CLIENT_SECRET = None, cached_token = JNull,
      token_api = status_only 404,
      ror_api = (\<lambda>r. status_only 404),
      search_api = (\<lambda>q. two_pages_api),
      record_api = (\<lambda>oid k. status_only 404),
      as_completed = (\<lambda>ids. ids)\<rparr>"

section \<open>Identifier healer: \<^verbatim>\<open>fetch_grid_from_ror\<close> and \<^verbatim>\<open>ensure_and_heal_grid_for_ror\<close>\<close>

text \<open>\<^verbatim>\<open>ror_id.strip().rstrip('/').split('/')[-1]\<close>\<close>

definition clean_ror :: "string \<Rightarrow> string" where
  "clean_ror ror_id =
     (let stripped = rev (dropWhile (\<lambda>c. c = CHR ''/'') (rev (py_strip ror_id)))
      in rev (takeWhile (\<lambda>c. c \<noteq> CHR ''/'') (rev stripped)))"

text \<open>\<^verbatim>\<open>x[0]\<close>\<close>

fun subscript0 :: "json \<Rightarrow> pyexc + json" where
  "subscript0 (JList (x # xs)) = Inr x"
| "subscript0 (JList []) = Inl (IndexError ''list index out of range'')"
| "subscript0 (JStr (c # cs)) = Inr (JStr [c])"
| "subscript0 (JStr []) = Inl (IndexError ''string index out of range'')"
| "subscript0 (JDict kvs) = Inl (KeyError ''0'')"
| "subscript0 v = Inl (TypeError (quoted (type_name v) @ '' object is not subscriptable''))"

text \<open>\<^verbatim>\<open>d.get('preferred') or (d.get('all') and d['all'][0])\<close>\<close>

definition preferred_or_first :: "json \<Rightarrow> pyexc + json" where
  "preferred_or_first d =
     bind_exc (py_get d ''preferred'') (\<lambda>preferred.
       if truthy preferred then Inr preferred
       else bind_exc (py_get d ''all'') (\<lambda>all_ids.
         if truthy all_ids then subscript0 all_ids else Inr all_ids))"

fun grid_of_list :: "json list \<Rightarrow> pyexc + json" where
  "grid_of_list [] = Inr JNull"
| "grid_of_list (identifier # rest) =
     bind_exc (py_get identifier ''type'') (\<lambda>t.
       if t = JStr ''grid'' then preferred_or_first identifier else grid_of_list rest)"

definition parse_external_ids :: "json \<Rightarrow> pyexc + json" where
  "parse_external_ids data =
     bind_exc (get_default data ''external_ids'' (JList [])) (\<lambda>external_ids.
       case external_ids of
         JList ids \<Rightarrow> grid_of_list ids
       | JDict kvs \<Rightarrow>
           bind_exc (get_default external_ids ''GRID'' (JDict [])) preferred_or_first
       | _ \<Rightarrow> Inr JNull)"

text \<open>
  The lookup returns \<open>JNull\<close> for Python's \<^verbatim>\<open>None\<close>. Every exception is caught inside the
  function.
\<close>

definition fetch_grid_from_ror :: "env \<Rightarrow> string \<Rightarrow> json" where
  "fetch_grid_from_ror e ror_id =
     (if ror_id = [] then JNull
      else
        (case ror_api e (clean_ror ror_id) of
           RequestException m \<Rightarrow> JNull
         | Response response \<Rightarrow>
             if status_code response = 200 then
               (case body response of
                  None \<Rightarrow> JNull
                | Some data \<Rightarrow>
                    (case parse_external_ids data of Inl exc \<Rightarrow> JNull | Inr grid \<Rightarrow> grid))
             else JNull))"

section \<open>Storage\<close>

text \<open>
  The tables the core reads and writes, and the state of the storage session.
  \<open>commit_plan\<close> tells for each commit that reaches the database whether it succeeds
  (\<open>None\<close>) or raises with the given text; a commit that raises leaves the tables as they
  were. \<open>needs_rollback\<close> holds after a commit has raised and until the session is rolled
  back: while it holds, every commit raises \<^verbatim>\<open>PendingRollbackError\<close> without reaching the
  database. A row of a run log that was committed before its run finished has no finish
  time yet.
\<close>

record user =
  user_ror_id :: "string option"
  user_grid_id :: json
  user_am_client_id :: "string option"

record work_row =
  w_ror_id :: string
  w_orcid :: string
  w_title :: json
  w_type :: json
  w_put_code :: json
  w_journal_title :: json
  w_pub_year :: json
  w_pub_month :: json
  w_pub_day :: json
  w_doi :: json
  w_issn :: json
  w_other_external_ids :: "(string \<times> json) list option"
  w_source :: json
  w_url :: json
  w_visibility :: json

record funding_row =
  f_ror_id :: string
  f_orcid :: string
  f_title :: json
  f_type :: json
  f_org_name :: json
  f_city :: json
  f_country :: json
  f_start_y :: json
  f_start_m :: json
  f_start_d :: json
  f_end_y :: json
  f_end_m :: json
  f_end_d :: json
  f_grant_number :: json
  f_currency :: json
  f_amount :: json
  f_source :: json
  f_visibility :: json
  f_url :: json

record run_row =
  run_ror_id :: string
  run_status :: string
  run_rows_count :: nat
  run_error :: "string option"
  run_started_at :: nat
  run_finished_at :: "nat option"

record store =
  users :: "user list"
  work_cache :: "work_row list"
  researcher_status_table :: "researcher_status list"
  funding_cache :: "funding_row list"
  work_cache_run :: "run_row list"
  funding_cache_run :: "run_row list"
  needs_rollback :: bool
  commit_plan :: "nat \<Rightarrow> string option"

text \<open>The text of the \<^verbatim>\<open>PendingRollbackError\<close> a session raises while it awaits a rollback.\<close>

definition pending_rollback :: string where
  "pending_rollback =
     ''This Session is inactive after a previous exception; first issue Session.rollback()''"

text \<open>
  \<^verbatim>\<open>db.session.commit()\<close>: the outcome of the commit and the session afterwards. A commit
  that the database refuses leaves the session awaiting a rollback.
\<close>

definition next_commit :: "store \<Rightarrow> string option \<times> store" where
  "next_commit st =
     (if needs_rollback st then (Some pending_rollback, st)
      else
        (case commit_plan st 0 of
           None \<Rightarrow> (None, st\<lparr>commit_plan := (\<lambda>n. commit_plan st (Suc n))\<rparr>)
         | Some exc \<Rightarrow>
             (Some exc, st\<lparr>commit_plan := (\<lambda>n. commit_plan st (Suc n)),
                             needs_rollback := True\<rparr>)))"

text \<open>\<^verbatim>\<open>db.session.rollback()\<close>\<close>

definition rollback :: "store \<Rightarrow> store" where
  "rollback st = st\<lparr>needs_rollback := False\<rparr>"

text \<open>
  \<^verbatim>\<open>_flush_bulk\<close>: the number of rows saved, the buffer afterwards and the storage afterwards.
  \<open>save\<close> is \<^verbatim>\<open>bulk_save_objects\<close> for the table of the buffered rows. The buffer is
  cleared only after a successful commit; after a commit that raised the session is
  rolled back.
\<close>

definition flush_bulk ::
  "'a list \<Rightarrow> ('a list \<Rightarrow> store \<Rightarrow> store) \<Rightarrow> store \<Rightarrow> nat \<times> 'a list \<times> store" where
  "flush_bulk bulk save st =
     (if bulk = [] then (0, bulk, st)
      else
        (case next_commit st of
           (None, st') \<Rightarrow> (length bulk, [], save bulk st')
         | (Some exc, st') \<Rightarrow> (0, bulk, rollback st')))"

definition save_works :: "work_row list \<Rightarrow> store \<Rightarrow> store" where
  "save_works rows st = st\<lparr>work_cache := work_cache st @ rows\<rparr>"

definition save_statuses :: "researcher_status list \<Rightarrow> store \<Rightarrow> store" where
  "save_statuses rows st = st\<lparr>researcher_status_table := researcher_status_table st @ rows\<rparr>"

definition save_fundings :: "funding_row list \<Rightarrow> store \<Rightarrow> store" where
  "save_fundings rows st = st\<lparr>funding_cache := funding_cache st @ rows\<rparr>"

definition has_grid :: "string \<Rightarrow> user \<Rightarrow> bool" where
  "has_grid ror_id u =
     (user_ror_id u = Some ror_id \<and> user_grid_id u \<noteq> JNull \<and> user_grid_id u \<noteq> JStr [])"

definition lacks_grid :: "string \<Rightarrow> user \<Rightarrow> bool" where
  "lacks_grid ror_id u =
     (user_ror_id u = Some ror_id \<and> (user_grid_id u = JNull \<or> user_grid_id u = JStr []))"

definition ensure_and_heal_grid_for_ror :: "env \<Rightarrow> string \<Rightarrow> store \<Rightarrow> json \<times> store" where
  "ensure_and_heal_grid_for_ror e ror_id st =
     (if ror_id = [] then (JNull, st)
      else
        (let existing = find (has_grid ror_id) (users st);
             local_grid = (case existing of Some u \<Rightarrow> user_grid_id u | None \<Rightarrow> JNull);
             grid_id = (if \<not> truthy local_grid then fetch_grid_from_ror e ror_id
                        else local_grid)
         in if truthy grid_id \<and> filter (lacks_grid ror_id) (users st) \<noteq> [] then
              (case next_commit st of
                 (None, st') \<Rightarrow>
                   (grid_id,
                    st'\<lparr>users := map (\<lambda>u. if lacks_grid ror_id u
                                           then u\<lparr>user_grid_id := grid_id\<rparr> else u)
                                    (users st')\<rparr>)
               | (Some exc, st') \<Rightarrow> (grid_id, rollback st'))
            else (grid_id, st)))"

section \<open>Concurrent profile fetcher\<close>

fun starts_with :: "'a list \<Rightarrow> 'a list \<Rightarrow> bool" where
  "starts_with [] ys = True"
| "starts_with (x # xs) [] = False"
| "starts_with (x # xs) (y # ys) = (x = y \<and> starts_with xs ys)"

text \<open>\<^verbatim>\<open>sub in s\<close> for strings\<close>

fun contains_sub :: "'a list \<Rightarrow> 'a list \<Rightarrow> bool" where
  "contains_sub sub [] = (sub = [])"
| "contains_sub sub (y # ys) = (starts_with sub (y # ys) \<or> contains_sub sub ys)"

text \<open>
  \<^verbatim>\<open>if key in data: data[target] = data[key]\<close>, as \<^verbatim>\<open>fetch_single_profile\<close> applies it to the
  parsed body. On a list or a string the membership test is defined, and the subscript
  that follows a positive test raises.
\<close>

fun copy_key :: "string \<Rightarrow> string \<Rightarrow> json \<Rightarrow> pyexc + json" where
  "copy_key key target (JDict kvs) =
     (case map_of kvs key of
        Some v \<Rightarrow> Inr (JDict (AList.update target v kvs))
      | None \<Rightarrow> Inr (JDict kvs))"
| "copy_key key target (JList xs) =
     (if JStr key \<in> set xs then Inl (TypeError ''list indices must be integers or slices, not str'')
      else Inr (JList xs))"
| "copy_key key target (JStr s) =
     (if contains_sub key s then Inl (TypeError (''string indices must be integers, not '' @ quoted ''str''))
      else Inr (JStr s))"
| "copy_key key target v =
     Inl (TypeError (''argument of type '' @ quoted (type_name v) @ '' is not iterable''))"

text \<open>
  \<^verbatim>\<open>fetch_single_profile\<close>, given the outcomes of the requests for this person's record.
  A response object is truthy exactly when its status is below 400.
\<close>

definition fetch_single_profile :: "(nat \<Rightarrow> http_outcome) \<Rightarrow> pyexc + json" where
  "fetch_single_profile net =
     (case fst (safe_get net default_retries) of
        None \<Rightarrow> Inr (JDict [])
      | Some response \<Rightarrow>
          if status_code response = 200 then
            (case body response of
               None \<Rightarrow> Inl (ValueError ''Expecting value'')
             | Some data \<Rightarrow> copy_key ''activities-summary'' ''activities'' data)
          else Inr (JDict []))"

text \<open>
  One completed task of the pool: the result is stored under the identifier when the
  profile is non-empty; an exception of the worker is logged and the identifier skipped.
\<close>

definition collect_profile ::
  "env \<Rightarrow> (string \<times> json) list \<Rightarrow> string \<Rightarrow> (string \<times> json) list" where
  "collect_profile e results oid =
     (case fetch_single_profile (record_api e oid) of
        Inl exc \<Rightarrow> results
      | Inr profile_data \<Rightarrow>
          if truthy profile_data then AList.update oid profile_data results else results)"

definition configured :: "string option \<Rightarrow> bool" where
  "configured v = (case v of None \<Rightarrow> False | Some s \<Rightarrow> s \<noteq> [])"

text \<open>
  \<^verbatim>\<open>get_client_credentials_token\<close>. The body of its \<^verbatim>\<open>try\<close> after \<^verbatim>\<open>response.json()\<close>:
  \<^verbatim>\<open>data.get("access_token")\<close>, \<^verbatim>\<open>data.get("expires_in", 6300)\<close> and, for a truthy token,
  \<^verbatim>\<open>time.time() + expires_in - 60\<close>. The handler of the \<^verbatim>\<open>try\<close> catches
  \<^verbatim>\<open>RequestException\<close> only, so the \<^verbatim>\<open>AttributeError\<close> of a body that is not an object
  and the \<^verbatim>\<open>TypeError\<close> of a lifetime that is not a number leave the function.
\<close>

fun is_number :: "json \<Rightarrow> bool" where
  "is_number (JNum n) = True"
| "is_number (JBool b) = True"
| "is_number v = False"

definition token_of_body :: "json \<Rightarrow> pyexc + json" where
  "token_of_body data =
     bind_exc (py_get data ''access_token'') (\<lambda>token.
     bind_exc (get_default data ''expires_in'' (JNum 6300)) (\<lambda>expires_in.
       if truthy token then
         (if is_number expires_in then Inr token
          else Inl (TypeError (''unsupported operand type(s) for +: '' @ quoted ''float'' @
                      '' and '' @ quoted (type_name expires_in))))
       else Inr JNull))"

text \<open>
  The result is the token, or \<open>JNull\<close> for \<^verbatim>\<open>None\<close>. A cached token that has not expired
  is returned at once. \<^verbatim>\<open>raise_for_status\<close> raises for the statuses from 400 to 599, and a
  body that is not JSON makes \<^verbatim>\<open>response.json()\<close> raise; both exceptions are
  \<^verbatim>\<open>RequestException\<close>s, which the handler logs before \<^verbatim>\<open>None\<close> is returned.
\<close>

definition get_client_credentials_token :: "env \<Rightarrow> pyexc + json" where
  "get_client_credentials_token e =
     (if truthy (cached_token e) then Inr (cached_token e)
      else if \<not> (configured (ORCID_TOKEN_URL e) \<and> configured (ORCID_CLIENT_ID e) \<and>
                  configured (ORCID_CLIENT_SECRET e)) then Inr JNull
      else
        (case token_api e of
           RequestException m \<Rightarrow> Inr JNull
         | Response response \<Rightarrow>
             if 400 \<le> status_code response \<and> status_code response < 600 then Inr JNull
             else
               (case body response of
                  None \<Rightarrow> Inr JNull
                | Some data \<Rightarrow> token_of_body data)))"

text \<open>
  \<^verbatim>\<open>get_all_profiles_concurrently\<close>. The token is requested first, outside any handler, so
  an exception of that call leaves the function. The tasks complete in the order
  \<open>as_completed e\<close> gives to the submitted identifiers; the width of the pool does not show
  in the result.
\<close>

definition get_all_profiles_concurrently ::
  "env \<Rightarrow> string list \<Rightarrow> pyexc + (string \<times> json) list" where
  "get_all_profiles_concurrently e orcid_ids =
     bind_exc (get_client_credentials_token e) (\<lambda>token.
       if \<not> configured (ORCID_MEMBER_URL e) \<or> \<not> truthy token then Inr []
       else Inr (foldl (collect_profile e) [] (as_completed e orcid_ids)))"





text \<open>The member endpoint is configured and the token request hands out a token.\<close>

definition has_credentials :: "env \<Rightarrow> bool" where
  "has_credentials e =
     (configured (ORCID_MEMBER_URL e) \<and>
      (case get_client_credentials_token e of Inr token \<Rightarrow> truthy token | Inl exc \<Rightarrow> False))"



section \<open>Flattening profile documents into rows\<close>

text \<open>\<^verbatim>\<open>str.lower()\<close> on code points below 256.\<close>

definition lower_char :: "char \<Rightarrow> char" where
  "lower_char c =
     (let n = (of_char c :: nat)
      in if (65 \<le> n \<and> n \<le> 90) \<or> (192 \<le> n \<and> n \<le> 222 \<and> n \<noteq> 215)
         then char_of (n + 32) else c)"

fun lower_value :: "json \<Rightarrow> pyexc + string" where
  "lower_value (JStr s) = Inr (map lower_char s)"
| "lower_value v = Inl (no_attribute v ''lower'')"

text \<open>\<^verbatim>\<open>(eid.get('external-id-type') or '').lower()\<close>\<close>

definition external_id_type :: "json \<Rightarrow> pyexc + string" where
  "external_id_type eid =
     bind_exc (py_get eid ''external-id-type'') (\<lambda>t. lower_value (py_or t (JStr [])))"

text \<open>Loops that collect results and stop at the first exception.\<close>

fun map_exc :: "('a \<Rightarrow> pyexc + 'b) \<Rightarrow> 'a list \<Rightarrow> pyexc + 'b list" where
  "map_exc f [] = Inr []"
| "map_exc f (x # xs) =
     bind_exc (f x) (\<lambda>y. bind_exc (map_exc f xs) (\<lambda>ys. Inr (y # ys)))"

fun concat_map_exc :: "('a \<Rightarrow> pyexc + 'b list) \<Rightarrow> 'a list \<Rightarrow> pyexc + 'b list" where
  "concat_map_exc f [] = Inr []"
| "concat_map_exc f (x # xs) =
     bind_exc (f x) (\<lambda>ys. bind_exc (concat_map_exc f xs) (\<lambda>zs. Inr (ys @ zs)))"

text \<open>
  The loop over the external ids of a work: the first DOI, the first ISSN, and the other
  identifiers. An entry \<open>(t, v)\<close> of \<open>others\<close> stands for the string \<^verbatim>\<open>f"{t}:{v}"\<close>.
\<close>

fun scan_external_ids ::
  "json list \<Rightarrow> json \<Rightarrow> json \<Rightarrow> (string \<times> json) list
     \<Rightarrow> pyexc + (json \<times> json \<times> (string \<times> json) list)" where
  "scan_external_ids [] doi issn others = Inr (doi, issn, others)"
| "scan_external_ids (eid # rest) doi issn others =
     bind_exc (external_id_type eid) (\<lambda>id_type.
     bind_exc (py_get eid ''external-id-value'') (\<lambda>id_val.
       if id_type = ''doi'' \<and> \<not> truthy doi then scan_external_ids rest id_val issn others
       else if id_type = ''issn'' \<and> \<not> truthy issn then scan_external_ids rest doi id_val others
       else if truthy id_val then scan_external_ids rest doi issn (others @ [(id_type, id_val)])
       else scan_external_ids rest doi issn others))"

text \<open>\<^verbatim>\<open>(d.get(k) or {}).get(k2) or []\<close>, iterated\<close>

definition external_ids_of :: "json \<Rightarrow> pyexc + json list" where
  "external_ids_of item =
     bind_exc (get_in item ''external-ids'' ''external-id'') (\<lambda>v. py_iter (py_or v (JList [])))"

definition work_row_of :: "string \<Rightarrow> string \<Rightarrow> json \<Rightarrow> pyexc + work_row" where
  "work_row_of ror_id orcid_id work =
     bind_exc (get_or_empty work ''title'') (\<lambda>title_node.
     bind_exc (get_or_empty work ''publication-date'') (\<lambda>pub_date.
     bind_exc (external_ids_of work) (\<lambda>external_ids.
     bind_exc (scan_external_ids external_ids JNull JNull []) (\<lambda>(doi, issn, others).
     bind_exc (get_in title_node ''title'' ''value'') (\<lambda>title.
     bind_exc (py_get work ''type'') (\<lambda>type.
     bind_exc (py_get work ''put-code'') (\<lambda>put_code.
     bind_exc (get_in work ''journal-title'' ''value'') (\<lambda>journal_title.
     bind_exc (get_in pub_date ''year'' ''value'') (\<lambda>pub_year.
     bind_exc (get_in pub_date ''month'' ''value'') (\<lambda>pub_month.
     bind_exc (get_in pub_date ''day'' ''value'') (\<lambda>pub_day.
     bind_exc (get_default work ''source'' (JDict [])) (\<lambda>source_node.
     bind_exc (get_in source_node ''source-name'' ''value'') (\<lambda>source.
     bind_exc (get_in work ''url'' ''value'') (\<lambda>url.
     bind_exc (py_get work ''visibility'') (\<lambda>visibility.
       Inr \<lparr>w_ror_id = ror_id, w_orcid = orcid_id, w_title = title, w_type = type,
            w_put_code = put_code, w_journal_title = journal_title, w_pub_year = pub_year,
            w_pub_month = pub_month, w_pub_day = pub_day, w_doi = doi, w_issn = issn,
            w_other_external_ids = (if others \<noteq> [] then Some others else None),
            w_source = source, w_url = url, w_visibility = visibility\<rparr>)))))))))))))))"

text \<open>\<^verbatim>\<open>for item in (grp.get(key) or [])\<close>\<close>

definition items_of :: "string \<Rightarrow> json \<Rightarrow> pyexc + json list" where
  "items_of key grp = bind_exc (py_get grp key) (\<lambda>v. py_iter (py_or v (JList [])))"

text \<open>
  \<^verbatim>\<open>for grp in container.get('group', [])\<close> under \<^verbatim>\<open>activities[section]\<close>, with the rows
  built from the items of every group.
\<close>

definition rows_of_profile ::
  "string \<Rightarrow> string \<Rightarrow> (json \<Rightarrow> pyexc + 'a) \<Rightarrow> json \<Rightarrow> pyexc + 'a list" where
  "rows_of_profile section item_key row_of profile =
     bind_exc (get_or_empty profile ''activities-summary'') (\<lambda>activities.
     bind_exc (get_or_empty activities section) (\<lambda>container.
     bind_exc (get_default container ''group'' (JList [])) (\<lambda>groups.
     bind_exc (py_iter groups) (concat_map_exc (\<lambda>grp.
       bind_exc (items_of item_key grp) (map_exc row_of))))))"

definition works_of_profile :: "string \<Rightarrow> string \<Rightarrow> json \<Rightarrow> pyexc + work_row list" where
  "works_of_profile ror_id orcid_id profile =
     rows_of_profile ''works'' ''work-summary'' (work_row_of ror_id orcid_id) profile"

text \<open>
  The grant number: the value of the first external id whose type contains \<open>grant\<close>,
  whatever the case of its letters.
\<close>

fun first_grant :: "json list \<Rightarrow> pyexc + json" where
  "first_grant [] = Inr JNull"
| "first_grant (eid # rest) =
     bind_exc (external_id_type eid) (\<lambda>id_type.
       if contains_sub ''grant'' id_type then py_get eid ''external-id-value''
       else first_grant rest)"

definition funding_row_of :: "string \<Rightarrow> string \<Rightarrow> json \<Rightarrow> pyexc + funding_row" where
  "funding_row_of ror_id orcid_id summary =
     bind_exc (get_or_empty summary ''organization'') (\<lambda>org.
     bind_exc (get_or_empty org ''address'') (\<lambda>address.
     bind_exc (get_or_empty summary ''start-date'') (\<lambda>start_date.
     bind_exc (get_or_empty summary ''end-date'') (\<lambda>end_date.
     bind_exc (get_or_empty summary ''amount'') (\<lambda>amount_node.
     bind_exc (external_ids_of summary) (\<lambda>external_ids.
     bind_exc (first_grant external_ids) (\<lambda>grant_id.
     bind_exc (get_default summary ''title'' (JDict [])) (\<lambda>title_node.
     bind_exc (get_in title_node ''title'' ''value'') (\<lambda>title.
     bind_exc (py_get summary ''type'') (\<lambda>type.
     bind_exc (py_get org ''name'') (\<lambda>org_name.
     bind_exc (py_get address ''city'') (\<lambda>city.
     bind_exc (py_get address ''country'') (\<lambda>country.
     bind_exc (get_in start_date ''year'' ''value'') (\<lambda>start_y.
     bind_exc (get_in start_date ''month'' ''value'') (\<lambda>start_m.
     bind_exc (get_in start_date ''day'' ''value'') (\<lambda>start_d.
     bind_exc (get_in end_date ''year'' ''value'') (\<lambda>end_y.
     bind_exc (get_in end_date ''month'' ''value'') (\<lambda>end_m.
     bind_exc (get_in end_date ''day'' ''value'') (\<lambda>end_d.
     bind_exc (py_get amount_node ''currency-code'') (\<lambda>currency.
     bind_exc (py_get amount_node ''value'') (\<lambda>amount.
     bind_exc (get_default summary ''source'' (JDict [])) (\<lambda>source_node.
     bind_exc (get_in source_node ''source-name'' ''value'') (\<lambda>source.
     bind_exc (py_get summary ''visibility'') (\<lambda>visibility.
     bind_exc (get_in summary ''url'' ''value'') (\<lambda>url.
       Inr \<lparr>f_ror_id = ror_id, f_orcid = orcid_id, f_title = title, f_type = type,
            f_org_name = org_name, f_city = city, f_country = country,
            f_start_y = start_y, f_start_m = start_m, f_start_d = start_d,
            f_end_y = end_y, f_end_m = end_m, f_end_d = end_d,
            f_grant_number = grant_id, f_currency = currency, f_amount = amount,
            f_source = source, f_visibility = visibility, f_url = url\<rparr>)))))))))))))))))))))))))"

definition fundings_of_profile :: "string \<Rightarrow> string \<Rightarrow> json \<Rightarrow> pyexc + funding_row list" where
  "fundings_of_profile ror_id orcid_id profile =
     rows_of_profile ''fundings'' ''funding-summary'' (funding_row_of ror_id orcid_id) profile"

section \<open>Cache rebuild orchestrator\<close>

text \<open>
  \<^verbatim>\<open>[r.get('orcid-id') for r in researchers if r.get('orcid-id')]\<close> on the records the
  registry search returns: these are objects whose \<open>orcid-id\<close> is a string.
\<close>

fun orcid_id_of :: "json \<Rightarrow> string list" where
  "orcid_id_of (JDict kvs) =
     (case map_of kvs ''orcid-id'' of
        Some (JStr s) \<Rightarrow> if s \<noteq> [] then [s] else []
      | _ \<Rightarrow> [])"
| "orcid_id_of v = []"

definition orcid_ids_of :: "json list \<Rightarrow> string list" where
  "orcid_ids_of researchers = concat (map orcid_id_of researchers)"

definition is_manager_of :: "string \<Rightarrow> user \<Rightarrow> bool" where
  "is_manager_of ror_id u = (user_ror_id u = Some ror_id \<and> user_am_client_id u \<noteq> None)"

definition configured_value :: "string option \<Rightarrow> string list" where
  "configured_value v = (case v of None \<Rightarrow> [] | Some s \<Rightarrow> if s \<noteq> [] then [s] else [])"

definition trusted_ids_for :: "env \<Rightarrow> string \<Rightarrow> store \<Rightarrow> string list" where
  "trusted_ids_for e ror_id st =
     configured_value (ORCID_CLIENT_ID e) @
     (case find (is_manager_of ror_id) (users st) of
        None \<Rightarrow> []
      | Some manager_user \<Rightarrow> configured_value (user_am_client_id manager_user))"

text \<open>
  The purge of one institution's rows with its commit. A commit that raises is not caught
  and not rolled back: the exception leaves the rebuild with the session awaiting a
  rollback.
\<close>

definition purge_works :: "string \<Rightarrow> store \<Rightarrow> pyexc option \<times> store" where
  "purge_works ror_id st =
     (case next_commit st of
        (None, st') \<Rightarrow>
          (None,
           st'\<lparr>work_cache := filter (\<lambda>r. w_ror_id r \<noteq> ror_id) (work_cache st'),
               researcher_status_table :=
                 filter (\<lambda>r. rs_ror_id r \<noteq> ror_id) (researcher_status_table st')\<rparr>)
      | (Some exc, st') \<Rightarrow> (Some (SQLAlchemyError exc), st'))"

definition purge_fundings :: "string \<Rightarrow> store \<Rightarrow> pyexc option \<times> store" where
  "purge_fundings ror_id st =
     (case next_commit st of
        (None, st') \<Rightarrow>
          (None, st'\<lparr>funding_cache := filter (\<lambda>r. f_ror_id r \<noteq> ror_id) (funding_cache st')\<rparr>)
      | (Some exc, st') \<Rightarrow> (Some (SQLAlchemyError exc), st'))"

text \<open>\<^verbatim>\<open>if len(buffer) >= limit: _flush_bulk(buffer, ...)\<close>\<close>

definition flush_if_full ::
  "nat \<Rightarrow> 'a list \<Rightarrow> ('a list \<Rightarrow> store \<Rightarrow> store) \<Rightarrow> store \<Rightarrow> 'a list \<times> store" where
  "flush_if_full limit buffer save st =
     (if limit \<le> length buffer then snd (flush_bulk buffer save st) else (buffer, st))"

text \<open>
  The processing loop of the Publications rebuild over the items of the profile map. The
  state of the loop is the running total, the two buffers and the storage. An exception
  leaves the loop with the storage as the flushes so far have made it.
\<close>

fun works_loop ::
  "string \<Rightarrow> string list \<Rightarrow> (string \<times> json) list \<Rightarrow> nat \<Rightarrow> work_row list
     \<Rightarrow> researcher_status list \<Rightarrow> store
     \<Rightarrow> (pyexc + nat \<times> work_row list \<times> researcher_status list) \<times> store" where
  "works_loop ror_id trusted_ids [] total_cached works_buffer status_buffer st =
     (Inr (total_cached, works_buffer, status_buffer), st)"
| "works_loop ror_id trusted_ids ((orcid_id, profile) # rest) total_cached works_buffer status_buffer st =
     (if \<not> truthy profile
      then works_loop ror_id trusted_ids rest total_cached works_buffer status_buffer st
      else
        (case extract_status_from_profile profile ror_id orcid_id trusted_ids of
           Inl exc \<Rightarrow> (Inl exc, st)
         | Inr status \<Rightarrow>
             (case works_of_profile ror_id orcid_id profile of
                Inl exc \<Rightarrow> (Inl exc, st)
              | Inr new_rows \<Rightarrow>
                  (let (works_buffer', st1) =
                         flush_if_full 2000 (works_buffer @ new_rows) save_works st;
                       (status_buffer', st2) =
                         flush_if_full 1000 (status_buffer @ [status]) save_statuses st1
                   in works_loop ror_id trusted_ids rest (total_cached + length new_rows)
                        works_buffer' status_buffer' st2))))"

text \<open>
  \<^verbatim>\<open>build_works_cache_for_ror\<close>. The result is \<open>None\<close> when the pagination of the registry
  search does not end; otherwise it is the returned count or the exception raised,
  together with the storage afterwards.
\<close>

definition build_works_cache_for_ror ::
  "env \<Rightarrow> string \<Rightarrow> string \<Rightarrow> store \<Rightarrow> ((pyexc + nat) \<times> store) option" where
  "build_works_cache_for_ror e ror_id base_url st =
     (let (grid_id, st1) = ensure_and_heal_grid_for_ror e ror_id st in
      case list_orcids_for_institution e ror_id grid_id base_url default_rows of
        None \<Rightarrow> None
      | Some researchers \<Rightarrow>
          if researchers = [] then Some (Inr 0, st1)
          else
            (let trusted_ids = trusted_ids_for e ror_id st1;
                 orcid_ids = orcid_ids_of researchers
             in case purge_works ror_id st1 of
                  (Some exc, st2) \<Rightarrow> Some (Inl exc, st2)
                | (None, st2) \<Rightarrow>
                    (case get_all_profiles_concurrently e orcid_ids of
                       Inl exc \<Rightarrow> Some (Inl exc, st2)
                     | Inr profiles_map \<Rightarrow>
                         (case works_loop ror_id trusted_ids profiles_map 0 [] [] st2 of
                            (Inl exc, st3) \<Rightarrow> Some (Inl exc, st3)
                          | (Inr (total_works_cached, works_buffer, status_buffer), st3) \<Rightarrow>
                              (let (n1, works_buffer', st4) =
                                     flush_bulk works_buffer save_works st3;
                                   (n2, status_buffer', st5) =
                                     flush_bulk status_buffer save_statuses st4
                               in Some (Inr total_works_cached, st5))))))"

fun fundings_loop ::
  "string \<Rightarrow> (string \<times> json) list \<Rightarrow> nat \<Rightarrow> funding_row list \<Rightarrow> store
     \<Rightarrow> (pyexc + nat \<times> funding_row list) \<times> store" where
  "fundings_loop ror_id [] total_cached funding_buffer st = (Inr (total_cached, funding_buffer), st)"
| "fundings_loop ror_id ((orcid_id, profile) # rest) total_cached funding_buffer st =
     (if \<not> truthy profile then fundings_loop ror_id rest total_cached funding_buffer st
      else
        (case fundings_of_profile ror_id orcid_id profile of
           Inl exc \<Rightarrow> (Inl exc, st)
         | Inr new_rows \<Rightarrow>
             (let (funding_buffer', st1) =
                    flush_if_full 2000 (funding_buffer @ new_rows) save_fundings st
              in fundings_loop ror_id rest (total_cached + length new_rows) funding_buffer' st1)))"

definition build_fundings_cache_for_ror ::
  "env \<Rightarrow> string \<Rightarrow> string \<Rightarrow> store \<Rightarrow> ((pyexc + nat) \<times> store) option" where
  "build_fundings_cache_for_ror e ror_id base_url st =
     (let (grid_id, st1) = ensure_and_heal_grid_for_ror e ror_id st in
      case list_orcids_for_institution e ror_id grid_id base_url default_rows of
        None \<Rightarrow> None
      | Some researchers \<Rightarrow>
          if researchers = [] then Some (Inr 0, st1)
          else
            (let orcid_ids = orcid_ids_of researchers
             in case purge_fundings ror_id st1 of
                  (Some exc, st2) \<Rightarrow> Some (Inl exc, st2)
                | (None, st2) \<Rightarrow>
                    (case get_all_profiles_concurrently e orcid_ids of
                       Inl exc \<Rightarrow> Some (Inl exc, st2)
                     | Inr profiles_map \<Rightarrow>
                         (case fundings_loop ror_id profiles_map 0 [] st2 of
                            (Inl exc, st3) \<Rightarrow> Some (Inl exc, st3)
                          | (Inr (total_fundings_cached, funding_buffer), st3) \<Rightarrow>
                              (let (n, funding_buffer', st4) =
                                     flush_bulk funding_buffer save_fundings st3
                               in Some (Inr total_fundings_cached, st4))))))"

section \<open>Run-log writers\<close>

datatype run_table = WorkCacheRun | FundingCacheRun

definition add_run :: "run_table \<Rightarrow> run_row \<Rightarrow> store \<Rightarrow> store" where
  "add_run model_class run st =
     (case model_class of
        WorkCacheRun \<Rightarrow> st\<lparr>work_cache_run := work_cache_run st @ [run]\<rparr>
      | FundingCacheRun \<Rightarrow> st\<lparr>funding_cache_run := funding_cache_run st @ [run]\<rparr>)"

text \<open>
  \<^verbatim>\<open>_log_run_web\<close> of the web controller and \<^verbatim>\<open>_log_execution_run\<close> of the command line.
  \<open>now\<close> is the value of \<^verbatim>\<open>utcnow()\<close>. A commit that raises is caught: the session is
  rolled back, which discards the row, and a warning is printed.
\<close>

definition log_run_web ::
  "run_table \<Rightarrow> string \<Rightarrow> string \<Rightarrow> nat \<Rightarrow> string option \<Rightarrow> nat \<Rightarrow> store \<Rightarrow> store" where
  "log_run_web model_class ror_id status row_count error_msg now st =
     (case next_commit st of
        (None, st') \<Rightarrow>
          add_run model_class
            \<lparr>run_ror_id = ror_id, run_status = status, run_rows_count = row_count,
             run_error = error_msg, run_started_at = now, run_finished_at = Some now\<rparr> st'
      | (Some exc, st') \<Rightarrow> rollback st')"

definition log_execution_run ::
  "run_table \<Rightarrow> string \<Rightarrow> string \<Rightarrow> nat \<Rightarrow> string option \<Rightarrow> nat \<Rightarrow> store \<Rightarrow> store" where
  "log_execution_run model_class ror_id status row_count error_msg now st =
     (if ror_id = [] then st
      else log_run_web model_class ror_id status row_count error_msg now st)"

text \<open>
  One rebuild invocation with its run log. \<open>outcome\<close> is what the call of the rebuild
  gave: the count it returned or the exception it raised, and the storage afterwards.
\<close>

definition logged ::
  "(run_table \<Rightarrow> string \<Rightarrow> string \<Rightarrow> nat \<Rightarrow> string option \<Rightarrow> nat \<Rightarrow> store \<Rightarrow> store)
     \<Rightarrow> run_table \<Rightarrow> string \<Rightarrow> nat \<Rightarrow> (pyexc + nat) \<times> store \<Rightarrow> store" where
  "logged writer model_class ror_id now outcome =
     (case outcome of
        (Inr row_count, st) \<Rightarrow> writer model_class ror_id ''success'' row_count None now st
      | (Inl exc, st) \<Rightarrow> writer model_class ror_id ''failed'' 0 (Some (str_exc exc)) now st)"

text \<open>
  The body of the command-line loop for one institution and one target, and the web route
  \<^verbatim>\<open>rebuild_cache\<close> once access, institution and credentials have been checked.
\<close>

definition cli_sync_works :: "env \<Rightarrow> string \<Rightarrow> string \<Rightarrow> nat \<Rightarrow> store \<Rightarrow> store option" where
  "cli_sync_works e ror member_url now st =
     map_option (logged log_execution_run WorkCacheRun (py_strip ror) now)
       (build_works_cache_for_ror e (py_strip ror) member_url st)"

definition cli_sync_fundings :: "env \<Rightarrow> string \<Rightarrow> string \<Rightarrow> nat \<Rightarrow> store \<Rightarrow> store option" where
  "cli_sync_fundings e ror member_url now st =
     map_option (logged log_execution_run FundingCacheRun (py_strip ror) now)
       (build_fundings_cache_for_ror e (py_strip ror) member_url st)"

definition rebuild_cache :: "env \<Rightarrow> string \<Rightarrow> string \<Rightarrow> string \<Rightarrow> nat \<Rightarrow> store \<Rightarrow> store option" where
  "rebuild_cache e target ror_id base_url now st =
     (if target = ''works'' then
        map_option (logged log_run_web WorkCacheRun ror_id now)
          (build_works_cache_for_ror e ror_id base_url st)
      else if target = ''fundings'' then
        map_option (logged log_run_web FundingCacheRun ror_id now)
          (build_fundings_cache_for_ror e ror_id base_url st)
      else Some st)"

section \<open>Run logs of the synchronisation routes\<close>

text \<open>
  The routes \<^verbatim>\<open>cache_full_build\<close> and \<^verbatim>\<open>cache_fundings_build\<close> commit a row with status
  \<open>running\<close> before the rebuild and change that row afterwards. A row is addressed by its
  position in its table; rows are only ever appended to the run logs.
\<close>

definition runs_of :: "run_table \<Rightarrow> store \<Rightarrow> run_row list" where
  "runs_of model_class st =
     (case model_class of
        WorkCacheRun \<Rightarrow> work_cache_run st
      | FundingCacheRun \<Rightarrow> funding_cache_run st)"

fun update_at :: "nat \<Rightarrow> ('a \<Rightarrow> 'a) \<Rightarrow> 'a list \<Rightarrow> 'a list" where
  "update_at k f [] = []"
| "update_at 0 f (x # xs) = f x # xs"
| "update_at (Suc k) f (x # xs) = x # update_at k f xs"

definition update_run :: "run_table \<Rightarrow> nat \<Rightarrow> (run_row \<Rightarrow> run_row) \<Rightarrow> store \<Rightarrow> store" where
  "update_run model_class k f st =
     (case model_class of
        WorkCacheRun \<Rightarrow> st\<lparr>work_cache_run := update_at k f (work_cache_run st)\<rparr>
      | FundingCacheRun \<Rightarrow> st\<lparr>funding_cache_run := update_at k f (funding_cache_run st)\<rparr>)"

text \<open>
  \<^verbatim>\<open>Run(ror_id=ror_id, status='running', started_at=dt.utcnow())\<close>; the row count takes the
  default of its column.
\<close>

definition running_run :: "string \<Rightarrow> nat \<Rightarrow> run_row" where
  "running_run ror_id started =
     \<lparr>run_ror_id = ror_id, run_status = ''running'', run_rows_count = 0, run_error = None,
      run_started_at = started, run_finished_at = None\<rparr>"

text \<open>
  \<^verbatim>\<open>db.session.commit()\<close> with changes pending in the session, outside any handler: the
  changes reach the tables when the commit succeeds, and the exception is raised
  otherwise.
\<close>

definition commit_changes :: "(store \<Rightarrow> store) \<Rightarrow> store \<Rightarrow> pyexc option \<times> store" where
  "commit_changes changes st =
     (case next_commit st of
        (None, st') \<Rightarrow> (None, changes st')
      | (Some exc, st') \<Rightarrow> (Some (SQLAlchemyError exc), st'))"

text \<open>
  One step of \<^verbatim>\<open>cache_full_build\<close>: the row is added and committed inside the \<^verbatim>\<open>try\<close>,
  then the rebuild runs; on success the status and the row count are set, an exception
  is logged and changes nothing on the row; the \<^verbatim>\<open>finally\<close> block sets the finish time
  from a second reading of the clock and commits outside any handler. The result is the
  exception that leaves the step, if any, and the storage. When the first commit has
  raised, the row is still pending in the session at the last commit.
\<close>

definition sync_step ::
  "run_table \<Rightarrow> (store \<Rightarrow> ((pyexc + nat) \<times> store) option) \<Rightarrow> string \<Rightarrow> nat \<Rightarrow> nat \<Rightarrow> store
     \<Rightarrow> (pyexc option \<times> store) option" where
  "sync_step model_class build ror_id started finished st =
     (let k = length (runs_of model_class st) in
      case commit_changes (add_run model_class (running_run ror_id started)) st of
        (Some exc, st1) \<Rightarrow>
          Some (commit_changes
                  (add_run model_class
                     ((running_run ror_id started)\<lparr>run_finished_at := Some finished\<rparr>)) st1)
      | (None, st1) \<Rightarrow>
          (case build st1 of
             None \<Rightarrow> None
           | Some (Inr total_cached, st2) \<Rightarrow>
               Some (commit_changes
                       (update_run model_class k
                          (\<lambda>r. r\<lparr>run_status := ''success'', run_rows_count := total_cached,
                                  run_finished_at := Some finished\<rparr>)) st2)
           | Some (Inl exc, st2) \<Rightarrow>
               Some (commit_changes
                       (update_run model_class k (\<lambda>r. r\<lparr>run_finished_at := Some finished\<rparr>))
                       st2)))"

text \<open>
  \<^verbatim>\<open>cache_full_build\<close> for the active institution and the public endpoint \<open>base_url\<close>: the
  Publications step, then the Grants step; an exception that leaves a step ends the
  route. The four times are the readings of the clock. The third step, which rebuilds
  the table of researcher names and writes no run log, is not part of this development.
\<close>

definition cache_full_build ::
  "env \<Rightarrow> string \<Rightarrow> string \<Rightarrow> nat \<Rightarrow> nat \<Rightarrow> nat \<Rightarrow> nat \<Rightarrow> store \<Rightarrow> (pyexc option \<times> store) option" where
  "cache_full_build e ror_id base_url started_w finished_w started_f finished_f st =
     (if ror_id = [] then Some (None, st)
      else
        (case sync_step WorkCacheRun (build_works_cache_for_ror e ror_id base_url) ror_id
                started_w finished_w st of
           None \<Rightarrow> None
         | Some (Some exc, st1) \<Rightarrow> Some (Some exc, st1)
         | Some (None, st1) \<Rightarrow>
             sync_step FundingCacheRun (build_fundings_cache_for_ror e ror_id base_url) ror_id
               started_f finished_f st1))"

text \<open>
  \<^verbatim>\<open>cache_fundings_build\<close>: the row is added and committed before the \<^verbatim>\<open>try\<close>; an
  exception of the rebuild sets the status \<open>failed\<close> and the error text; the \<^verbatim>\<open>finally\<close>
  block sets the finish time and commits.
\<close>

definition cache_fundings_build ::
  "env \<Rightarrow> string \<Rightarrow> string \<Rightarrow> nat \<Rightarrow> nat \<Rightarrow> store \<Rightarrow> (pyexc option \<times> store) option" where
  "cache_fundings_build e ror_id base_url started finished st =
     (if ror_id = [] then Some (None, st)
      else
        (let k = length (funding_cache_run st) in
         case commit_changes (add_run FundingCacheRun (running_run ror_id started)) st of
           (Some exc, st1) \<Rightarrow> Some (Some exc, st1)
         | (None, st1) \<Rightarrow>
             (case build_fundings_cache_for_ror e ror_id base_url st1 of
                None \<Rightarrow> None
              | Some (Inr rows_count, st2) \<Rightarrow>
                  Some (commit_changes
                          (update_run FundingCacheRun k
                             (\<lambda>r. r\<lparr>run_status := ''success'', run_rows_count := rows_count,
                                     run_finished_at := Some finished\<rparr>)) st2)
              | Some (Inl exc, st2) \<Rightarrow>
                  Some (commit_changes
                          (update_run FundingCacheRun k
                             (\<lambda>r. r\<lparr>run_status := ''failed'', run_error := Some (str_exc exc),
                                     run_finished_at := Some finished\<rparr>)) st2))))"


definition same_runs :: "store \<Rightarrow> store \<Rightarrow> bool" where
  "same_runs st st' =
     (work_cache_run st' = work_cache_run st \<and> funding_cache_run st' = funding_cache_run st)"

text \<open>Example: an institution with cached rows whose search requests all fail.\<close>

definition failing_search_env :: env where
  "failing_search_env =
     \<lparr>ORCID_SEARCH_URL = None, ORCID_MEMBER_URL = Some ''https://api.orcid.org/v3.0'',
      ORCID_CLIENT_ID = Some ''APP-TRUSTED'', ORCID_TOKEN_URL = None,
      ORCID_CLIENT_SECRET = None, cached_token = JStr ''t0k3n'', token_api = status_only 404,
      ror_api = (\<lambda>r. RequestException ''timed out''),
      search_api = (\<lambda>q s k. status_only 503),
      record_api = (\<lambda>oid k. status_only 404),
      as_completed = (\<lambda>ids. ids)\<rparr>"

definition cached_work :: work_row where
  "cached_work =
     \<lparr>w_ror_id = ''02ap3w078'', w_orcid = ''0000-0001'', w_title = JStr ''A paper'',
      w_type = JNull, w_put_code = JNull, w_journal_title = JNull, w_pub_year = JNull,
      w_pub_month = JNull, w_pub_day = JNull, w_doi = JNull, w_issn = JNull,
      w_other_external_ids = None, w_source = JNull, w_url = JNull, w_visibility = JNull\<rparr>"

definition cached_store :: store where
  "cached_store =
     \<lparr>users = [], work_cache = [cached_work],
      researcher_status_table =
        [\<lparr>rs_ror_id = ''02ap3w078'', rs_orcid = ''0000-0001'', is_managed_by_am = True\<rparr>],
      funding_cache = [], work_cache_run = [], funding_cache_run = [],
      needs_rollback = False, commit_plan = (\<lambda>n. None)\<rparr>"

text \<open>
  The lookup in the secondary registry failed: a network error, not-found, or any other
  status than 200.
\<close>

definition lookup_failed :: "env \<Rightarrow> string \<Rightarrow> bool" where
  "lookup_failed e ror_id =
     (case ror_api e (clean_ror ror_id) of
        RequestException m \<Rightarrow> True
      | Response response \<Rightarrow> status_code response \<noteq> 200)"

text \<open>The rows a writer has added to the two run logs.\<close>

definition new_runs :: "store \<Rightarrow> store \<Rightarrow> run_row list \<Rightarrow> run_row list \<Rightarrow> bool" where
  "new_runs st st' ws fs =
     (work_cache_run st' = work_cache_run st @ ws \<and>
      funding_cache_run st' = funding_cache_run st @ fs)"


definition well_logged :: "run_row \<Rightarrow> bool" where
  "well_logged r =
     (run_finished_at r = Some (run_started_at r) \<and>
      (run_status r = ''success'' \<or> run_status r = ''failed''))"

text \<open>
  The next commit succeeds: the session is usable and the database accepts the commit.
\<close>

definition commit_succeeds :: "store \<Rightarrow> bool" where
  "commit_succeeds st = (\<not> needs_rollback st \<and> commit_plan st 0 = None)"




definition success_run :: run_row where
  "success_run =
     \<lparr>run_ror_id = ''02ap3w078'', run_status = ''success'', run_rows_count = 0,
      run_error = None, run_started_at = 1762190000, run_finished_at = Some 1762190000\<rparr>"

text \<open>
  What the flushes and the healer keep: the run logs, and a usable session.
\<close>

definition frame :: "store \<Rightarrow> store \<Rightarrow> bool" where
  "frame st st' = (same_runs st st' \<and> (\<not> needs_rollback st \<longrightarrow> \<not> needs_rollback st'))"

text \<open>
  Example: every researcher's record has a null list of affiliation groups under
  \<open>employments\<close>; a token is cached.
\<close>

definition null_group_profile :: json where
  "null_group_profile =
     JDict [(''activities-summary'',
       JDict [(''employments'', JDict [(''affiliation-group'', JNull)])])]"

definition null_group_env :: env where
  "null_group_env =
     search_env\<lparr>ORCID_MEMBER_URL := Some ''https://api.orcid.org/v3.0'',
       cached_token := JStr ''t0k3n'',
       record_api := (\<lambda>oid k. ok_json null_group_profile)\<rparr>"

text \<open>That record as \<^verbatim>\<open>fetch_single_profile\<close> returns it, with the copied key.\<close>

definition fetched_null_group :: json where
  "fetched_null_group =
     JDict [(''activities-summary'',
              JDict [(''employments'', JDict [(''affiliation-group'', JNull)])]),
            (''activities'', JDict [(''employments'', JDict [(''affiliation-group'', JNull)])])]"

text \<open>
  A scan that stops at the first element that matches or raises is decided at position
  \<open>i\<close> when the test does not answer false there and answers false at every earlier
  position.
\<close>

definition decided_at :: "('a \<Rightarrow> pyexc + bool) \<Rightarrow> 'a list \<Rightarrow> nat \<Rightarrow> bool" where
  "decided_at f xs i =
     (i < length xs \<and> f (xs ! i) \<noteq> Inr False \<and> list_all (\<lambda>x. f x = Inr False) (take i xs))"

text \<open>Example: a group whose list of summaries is null.\<close>

definition null_summaries_profile :: json where
  "null_summaries_profile =
     JDict [(''activities-summary'',
       JDict [(''employments'',
         JDict [(''affiliation-group'', JList [JDict [(''summaries'', JNull)]])])])]"

text \<open>
  Example: a group whose second summary matches and whose third is null, and activities
  whose first section matches in its first group while the second group is null and the
  second section is a string.
\<close>

definition scan_summaries :: "json list" where
  "scan_summaries = [untrusted_summary, trusted_summary, JNull]"

definition scan_groups :: "json list" where
  "scan_groups = [JDict [(''summaries'', JList scan_summaries)], JNull]"

definition scan_activities :: json where
  "scan_activities =
     JDict [(''employments'', JDict [(''affiliation-group'', JList scan_groups)]),
            (''educations'', JStr ''n/a'')]"

section \<open>Properties of the resilient fetcher\<close>


declare safe_get_from.simps [simp del]

lemma safe_get_from_done: "retries < attempt \<Longrightarrow> safe_get_from net retries attempt = (None, [])"
  by (simp add: safe_get_from.simps [of net retries attempt])

lemma safe_get_from_final:
  "attempt \<le> retries \<Longrightarrow> is_final (net attempt) \<Longrightarrow>
   safe_get_from net retries attempt = (final_value (net attempt), [Get attempt])"
  by (cases "net attempt")
     (auto simp: safe_get_from.simps [of net retries attempt] is_final_def final_value_def)

lemma safe_get_from_retry:
  "attempt \<le> retries \<Longrightarrow> \<not> is_final (net attempt) \<Longrightarrow>
   safe_get_from net retries attempt =
     and_then (Get attempt # backoff retries (net attempt) attempt)
       (safe_get_from net retries (Suc attempt))"
  by (cases "net attempt")
     (auto simp: safe_get_from.simps [of net retries attempt] is_final_def backoff_def
        is_429_def and_then_def)

lemma safe_get_from_exhausted:
  "(\<And>k. attempt \<le> k \<Longrightarrow> k \<le> retries \<Longrightarrow> \<not> is_final (net k)) \<Longrightarrow>
   safe_get_from net retries attempt =
     (None, concat (map (\<lambda>k. Get k # backoff retries (net k) k) [attempt..<Suc retries]))"
proof (induction "Suc retries - attempt" arbitrary: attempt)
  case 0
  then show ?case by (simp add: safe_get_from_done)
next
  case (Suc n)
  then have le: "attempt \<le> retries" by simp
  have nf: "\<not> is_final (net attempt)" using Suc.prems le by simp
  have rest: "safe_get_from net retries (Suc attempt) =
      (None, concat (map (\<lambda>k. Get k # backoff retries (net k) k) [Suc attempt..<Suc retries]))"
    using Suc.hyps(1) [of "Suc attempt"] Suc.hyps(2) Suc.prems by simp
  have up: "[attempt..<Suc retries] = attempt # [Suc attempt..<Suc retries]"
    using le by (simp add: upt_conv_Cons)
  show ?case
    using safe_get_from_retry [of attempt retries net] le nf rest up
    by (simp add: and_then_def)
qed

lemma safe_get_from_first_final:
  "attempt \<le> j \<Longrightarrow> j \<le> retries \<Longrightarrow> is_final (net j) \<Longrightarrow>
   (\<And>k. attempt \<le> k \<Longrightarrow> k < j \<Longrightarrow> \<not> is_final (net k)) \<Longrightarrow>
   safe_get_from net retries attempt =
     (final_value (net j),
      concat (map (\<lambda>k. Get k # backoff retries (net k) k) [attempt..<j]) @ [Get j])"
proof (induction "j - attempt" arbitrary: attempt)
  case 0
  then have "attempt = j" by simp
  then show ?case using 0 by (simp add: safe_get_from_final)
next
  case (Suc n)
  then have lt: "attempt < j" by simp
  then have le: "attempt \<le> retries" using Suc.prems by simp
  have nf: "\<not> is_final (net attempt)" using Suc.prems lt by simp
  have rest: "safe_get_from net retries (Suc attempt) =
      (final_value (net j),
       concat (map (\<lambda>k. Get k # backoff retries (net k) k) [Suc attempt..<j]) @ [Get j])"
    using Suc.hyps(1) [of "Suc attempt"] Suc.hyps(2) Suc.prems lt by simp
  have up: "[attempt..<j] = attempt # [Suc attempt..<j]"
    using lt by (simp add: upt_conv_Cons)
  show ?case
    using safe_get_from_retry [of attempt retries net] le nf rest up
    by (simp add: and_then_def)
qed

text \<open>
  Claim C2. The fetcher follows the status policy. With responses 429, 429, 200 and the
  default of three attempts it sends three requests, sleeping 2 s and 4 s after the two
  429 responses, and returns the 200 response. A first response 404 is returned at once;
  a first response 401 or 403 yields \<open>None\<close> at once. In general the call ends at the
  first attempt whose status is 200, 404, 401 or 403; every earlier attempt is followed by
  a sleep of 2 s times the attempt number after a 429 and of 0.5 s times the attempt number
  after any other status or a network error. When no attempt up to \<open>retries\<close> is final,
  all \<open>retries\<close> requests are sent and the result is \<open>None\<close>.
\<close>

theorem C2_safe_get_status_policy:
  "(net 1 = status_only 429 \<and> net 2 = status_only 429 \<and> net 3 = Response r \<and>
      status_code r = 200 \<longrightarrow>
      safe_get net default_retries =
        (Some r, [Get 1, Sleep 2000, Get 2, Sleep 4000, Get 3]))
   \<and> (0 < retries \<and> net 1 = Response r \<and> status_code r = 404 \<longrightarrow>
      safe_get net retries = (Some r, [Get 1]))
   \<and> (0 < retries \<and> net 1 = Response r \<and> (status_code r = 401 \<or> status_code r = 403) \<longrightarrow>
      safe_get net retries = (None, [Get 1]))
   \<and> (1 \<le> j \<and> j \<le> retries \<and> is_final (net j) \<and> (\<forall>k. 1 \<le> k \<and> k < j \<longrightarrow> \<not> is_final (net k)) \<longrightarrow>
      safe_get net retries =
        (final_value (net j),
         concat (map (\<lambda>k. Get k # backoff retries (net k) k) [1..<j]) @ [Get j]))
   \<and> ((\<forall>k. 1 \<le> k \<and> k \<le> retries \<longrightarrow> \<not> is_final (net k)) \<longrightarrow>
      safe_get net retries =
        (None, concat (map (\<lambda>k. Get k # backoff retries (net k) k) [1..<Suc retries])))"
proof (intro conjI impI)
  assume a: "net 1 = status_only 429 \<and> net 2 = status_only 429 \<and> net 3 = Response r \<and>
      status_code r = 200"
  have fin: "is_final (net 3)" using a by (simp add: is_final_def)
  have nf: "\<And>k. 1 \<le> k \<Longrightarrow> k < 3 \<Longrightarrow> \<not> is_final (net k)"
  proof -
    fix k :: nat assume "1 \<le> k" "k < 3"
    then have "k = 1 \<or> k = 2" by arith
    then show "\<not> is_final (net k)" using a by (auto simp: is_final_def status_only_def)
  qed
  have up: "[Suc 0..<3] = [Suc 0, 2]" by (simp add: upt_conv_Cons)
  show "safe_get net default_retries =
        (Some r, [Get 1, Sleep 2000, Get 2, Sleep 4000, Get 3])"
    using safe_get_from_first_final [of 1 3 3 net, OF _ _ fin nf] a
    by (simp add: safe_get_def default_retries_def up backoff_def is_429_def status_only_def
        final_value_def)
next
  assume a: "0 < retries \<and> net 1 = Response r \<and> status_code r = 404"
  then show "safe_get net retries = (Some r, [Get 1])"
    using safe_get_from_final [of 1 retries net]
    by (simp add: safe_get_def is_final_def final_value_def)
next
  assume a: "0 < retries \<and> net 1 = Response r \<and> (status_code r = 401 \<or> status_code r = 403)"
  then show "safe_get net retries = (None, [Get 1])"
    using safe_get_from_final [of 1 retries net]
    by (auto simp: safe_get_def is_final_def final_value_def)
next
  assume a: "1 \<le> j \<and> j \<le> retries \<and> is_final (net j) \<and>
    (\<forall>k. 1 \<le> k \<and> k < j \<longrightarrow> \<not> is_final (net k))"
  then show "safe_get net retries =
        (final_value (net j),
         concat (map (\<lambda>k. Get k # backoff retries (net k) k) [1..<j]) @ [Get j])"
    using safe_get_from_first_final [of 1 j retries net] by (simp add: safe_get_def)
next
  assume a: "\<forall>k. 1 \<le> k \<and> k \<le> retries \<longrightarrow> \<not> is_final (net k)"
  then show "safe_get net retries =
        (None, concat (map (\<lambda>k. Get k # backoff retries (net k) k) [1..<Suc retries]))"
    using safe_get_from_exhausted [of 1 retries net] by (simp add: safe_get_def)
qed

theorem C2_safe_get_status_policy_witness:
  "safe_get net_429_429_200 default_retries =
     (Some \<lparr>status_code = 200, body = None\<rparr>, [Get 1, Sleep 2000, Get 2, Sleep 4000, Get 3])
   \<and> safe_get (\<lambda>k. status_only 404) 3 = (Some \<lparr>status_code = 404, body = None\<rparr>, [Get 1])
   \<and> safe_get (\<lambda>k. status_only 401) 3 = (None, [Get 1])
   \<and> safe_get net_500 3 = (None, [Get 1, Sleep 500, Get 2, Sleep 1000, Get 3])"
proof -
  have a: "safe_get net_429_429_200 default_retries =
     (Some \<lparr>status_code = 200, body = None\<rparr>, [Get 1, Sleep 2000, Get 2, Sleep 4000, Get 3])"
    using C2_safe_get_status_policy [of net_429_429_200 "\<lparr>status_code = 200, body = None\<rparr>" 3 1]
    by (simp add: net_429_429_200_def status_only_def)
  have b: "safe_get (\<lambda>k. status_only 404) 3 = (Some \<lparr>status_code = 404, body = None\<rparr>, [Get 1])"
    using C2_safe_get_status_policy [of "\<lambda>k. status_only 404" "\<lparr>status_code = 404, body = None\<rparr>" 3 1]
    by (simp add: status_only_def)
  have c: "safe_get (\<lambda>k. status_only 401) 3 = (None, [Get 1])"
    using C2_safe_get_status_policy [of "\<lambda>k. status_only 401" "\<lparr>status_code = 401, body = None\<rparr>" 3 1]
    by (simp add: status_only_def)
  have up: "[Suc 0..<4] = [Suc 0, 2, 3]" by (simp add: upt_conv_Cons)
  have d: "safe_get net_500 3 = (None, [Get 1, Sleep 500, Get 2, Sleep 1000, Get 3])"
    using C2_safe_get_status_policy [of net_500 "\<lparr>status_code = 401, body = None\<rparr>" 3 1]
    by (simp add: net_500_def status_only_def is_final_def backoff_def is_429_def up)
  show ?thesis using a b c d by simp
qed

section \<open>Properties of the affiliation classifier\<close>

lemma bind_exc_Inr_iff:
  "bind_exc m f = Inr b \<longleftrightarrow> (\<exists>v. m = Inr v \<and> f v = Inr b)"
  by (cases m) (auto simp: bind_exc_def)

lemma first_match_Inr:
  "first_match f xs = Inr b \<Longrightarrow> b = (\<exists>x \<in> set xs. f x = Inr True)"
  by (induction xs) (auto split: sum.splits if_splits)

lemma first_match_short_circuit:
  "\<forall>y \<in> set pre. f y = Inr False \<Longrightarrow> f x = Inr True \<Longrightarrow>
   first_match f (pre @ x # rest) = Inr True"
  by (induction pre) auto

lemma first_match_total:
  "\<forall>x \<in> set xs. \<exists>b. f x = Inr b \<Longrightarrow> \<exists>b. first_match f xs = Inr b"
  by (induction xs) (auto split: sum.splits)

lemma first_match_strings:
  "first_match f xs = Inr b \<Longrightarrow> \<forall>x \<in> set xs. \<exists>e. f x = Inl e \<Longrightarrow> xs = [] \<and> \<not> b"
  by (cases xs) (auto split: sum.splits)

lemma py_get_field: "py_get d k = Inr v \<Longrightarrow> v = field d k"
  by (cases d) (auto simp: py_get_def)

lemma get_default_elems:
  "get_default d k (JList []) = Inr v \<Longrightarrow> elems v = elems (field d k)"
  by (cases d) (auto split: option.splits)

lemma field_py_or: "field (py_or v (JDict [])) k = field v k"
  by (cases v) (auto simp: py_or_def)

lemma get_or_empty_field: "get_or_empty d k = Inr v \<Longrightarrow> field v k2 = field (field d k) k2"
  by (auto simp: get_or_empty_def bind_exc_Inr_iff field_py_or dest!: py_get_field)

lemma get_in_field: "get_in d k k2 = Inr v \<Longrightarrow> v = field (field d k) k2"
  unfolding get_in_def bind_exc_Inr_iff
  using get_or_empty_field py_get_field by metis

lemma py_values_nested: "py_values s = Inr vals \<Longrightarrow> vals = nested_objects s"
  by (cases s) auto

lemma summary_managed_Inr:
  assumes "summary_managed t s = Inr b"
  shows "b = summary_trusted t s"
proof -
  from assms obtain vals where v: "py_values s = Inr vals"
    and r: "(case find (dict_with_key ''source'') vals of
         None \<Rightarrow> Inr False
       | Some item_data \<Rightarrow>
           bind_exc (get_or_empty item_data ''source'') (\<lambda>source.
           bind_exc (get_in source ''source-client-id'' ''path'') (\<lambda>source_client_path.
             Inr (truthy source_client_path \<and> in_strings source_client_path t)))) = Inr b"
    unfolding summary_managed_def bind_exc_Inr_iff by blast
  have vals: "vals = nested_objects s" using v by (rule py_values_nested)
  show ?thesis
  proof (cases "find (dict_with_key ''source'') vals")
    case None
    then show ?thesis using r vals by (simp add: summary_trusted_def)
  next
    case (Some obj)
    with r obtain source p where s: "get_or_empty obj ''source'' = Inr source"
      and p: "get_in source ''source-client-id'' ''path'' = Inr p"
      and b: "b = (truthy p \<and> in_strings p t)"
      by (auto simp: bind_exc_Inr_iff)
    have "p = field (field source ''source-client-id'') ''path''" using p by (rule get_in_field)
    also have "field source ''source-client-id'' = field (field obj ''source'') ''source-client-id''"
      using s by (rule get_or_empty_field)
    finally have "p = client_path obj" by (simp add: client_path_def)
    then show ?thesis using b Some vals by (simp add: summary_trusted_def)
  qed
qed

lemma summary_managed_str: "\<exists>e. summary_managed t (JStr s) = Inl e"
  by (simp add: summary_managed_def bind_exc_def)

lemma group_managed_str: "\<exists>e. group_managed t (JStr s) = Inl e"
  by (simp add: group_managed_def bind_exc_def)

lemma first_match_sound:
  "first_match f xs = Inr b \<Longrightarrow> (\<And>x b'. x \<in> set xs \<Longrightarrow> f x = Inr b' \<Longrightarrow> b' = P x) \<Longrightarrow>
   b = (\<exists>x \<in> set xs. P x)"
proof (induction xs)
  case Nil
  then show ?case by simp
next
  case (Cons x xs)
  from Cons.prems(1) obtain b0 where b0: "f x = Inr b0"
    by (auto split: sum.splits)
  have p: "b0 = P x" using Cons.prems(2) [of x b0] b0 by simp
  show ?case
  proof (cases b0)
    case True
    then show ?thesis using Cons.prems(1) b0 p by simp
  next
    case False
    then have "first_match f xs = Inr b" using Cons.prems(1) b0 by simp
    then have "b = (\<exists>x \<in> set xs. P x)" using Cons.IH Cons.prems(2) by simp
    then show ?thesis using False p by simp
  qed
qed

lemma iter_first_match:
  assumes it: "py_iter v = Inr xs" and fm: "first_match f xs = Inr b"
    and str: "\<And>s. \<exists>e. f (JStr s) = Inl e"
    and snd: "\<And>x b'. f x = Inr b' \<Longrightarrow> b' = P x"
  shows "b = (\<exists>x \<in> set (elems v). P x)"
proof (cases v)
  case (JList ys)
  then show ?thesis using it first_match_sound [OF fm, of P] snd by auto
next
  case (JDict kvs)
  then have "\<forall>x \<in> set xs. \<exists>e. f x = Inl e" using it str by auto
  then show ?thesis using first_match_strings [OF fm] JDict by simp
next
  case (JStr s)
  then have "\<forall>x \<in> set xs. \<exists>e. f x = Inl e" using it str by auto
  then show ?thesis using first_match_strings [OF fm] JStr by simp
qed (use it in auto)

lemma group_managed_Inr:
  assumes "group_managed t g = Inr b"
  shows "b = group_trusted t g"
proof -
  from assms obtain ss xs where g: "get_default g ''summaries'' (JList []) = Inr ss"
    and it: "py_iter ss = Inr xs" and fm: "first_match (summary_managed t) xs = Inr b"
    unfolding group_managed_def bind_exc_Inr_iff by blast
  have "b = (\<exists>x \<in> set (elems ss). summary_trusted t x)"
    by (rule iter_first_match [OF it fm]) (rule summary_managed_str, rule summary_managed_Inr)
  then show ?thesis using get_default_elems [OF g] by (simp add: group_trusted_def)
qed

lemma get_or_empty_elems:
  "get_or_empty d k = Inr v \<Longrightarrow> get_default v k2 (JList []) = Inr w \<Longrightarrow>
   elems w = elems (field (field d k) k2)"
  using get_default_elems [of v k2 w] get_or_empty_field [of d k v k2] by simp

lemma section_managed_Inr:
  assumes "section_managed t a sec = Inr b"
  shows "b = section_trusted t a sec"
proof -
  from assms obtain sd gs xs where sd: "get_or_empty a sec = Inr sd"
    and g: "get_default sd ''affiliation-group'' (JList []) = Inr gs"
    and it: "py_iter gs = Inr xs" and fm: "first_match (group_managed t) xs = Inr b"
    unfolding section_managed_def bind_exc_Inr_iff by blast
  have "b = (\<exists>x \<in> set (elems gs). group_trusted t x)"
    by (rule iter_first_match [OF it fm]) (rule group_managed_str, rule group_managed_Inr)
  then show ?thesis using get_or_empty_elems [OF sd g] by (simp add: section_trusted_def)
qed

lemma first_source_trusted_sections:
  "first_source_trusted t p =
     (\<exists>sec \<in> set sections_to_check. section_trusted t (field p ''activities-summary'') sec)"
  by (auto simp: first_source_trusted_def all_summaries_def section_trusted_def
      group_trusted_def summary_trusted_def)

lemma section_trusted_py_or:
  "section_trusted t (py_or v (JDict [])) sec = section_trusted t v sec"
  by (simp add: section_trusted_def field_py_or)

lemma is_managed_Inr:
  assumes "is_managed p t = Inr b"
  shows "b = first_source_trusted t p"
proof -
  from assms obtain a where a: "get_or_empty p ''activities-summary'' = Inr a"
    and fm: "first_match (section_managed t a) sections_to_check = Inr b"
    unfolding is_managed_def bind_exc_Inr_iff by blast
  have "b = (\<exists>sec \<in> set sections_to_check. section_trusted t a sec)"
    by (rule first_match_sound [OF fm]) (rule section_managed_Inr)
  moreover have "\<And>sec. section_trusted t a sec = section_trusted t (field p ''activities-summary'') sec"
    using get_or_empty_field [OF a] by (simp add: section_trusted_def)
  ultimately show ?thesis by (simp add: first_source_trusted_sections)
qed

lemma get_or_empty_object:
  assumes "is_object d" "object_or_null (field d k)"
  shows "\<exists>kvs. get_or_empty d k = Inr (JDict kvs) \<and> JDict kvs = py_or (field d k) (JDict [])"
proof -
  from assms(1) obtain ds where d: "d = JDict ds" by (cases d) auto
  have g: "get_or_empty d k = Inr (py_or (field d k) (JDict []))"
    by (simp add: d get_or_empty_def py_get_def bind_exc_def)
  from assms(2) have "\<exists>kvs. py_or (field d k) (JDict []) = JDict kvs"
    by (cases "field d k") (auto simp: py_or_def)
  then show ?thesis using g by auto
qed

lemma absent_or_objects_py_or:
  "absent_or_objects v k \<Longrightarrow> absent_or_objects (py_or v (JDict [])) k"
  by (cases v) (auto simp: py_or_def)

lemma get_default_objects:
  assumes "absent_or_objects (JDict kvs) k"
  shows "\<exists>xs. get_default (JDict kvs) k (JList []) = Inr (JList xs) \<and> list_all is_object xs
     \<and> xs = elems (field (JDict kvs) k)"
  using assms by (auto split: option.splits json.splits)

lemma summary_managed_total:
  assumes "is_object s" "summary_shaped s"
  shows "\<exists>b. summary_managed t s = Inr b"
proof -
  from assms(1) obtain kvs where s: "s = JDict kvs" by (cases s) auto
  show ?thesis
  proof (cases "find (dict_with_key ''source'') (map snd kvs)")
    case None
    then have "summary_managed t s = Inr False"
      by (simp add: s summary_managed_def bind_exc_def)
    then show ?thesis by blast
  next
    case (Some obj)
    then have "dict_with_key ''source'' obj" by (auto simp: find_Some_iff)
    then have obj: "is_object obj" by (cases obj) auto
    from assms(2) Some have sh: "object_or_null (field obj ''source'')"
      "object_or_null (field (field obj ''source'') ''source-client-id'')"
      by (auto simp: summary_shaped_def s)
    from get_or_empty_object [OF obj sh(1)] obtain src where
      src: "get_or_empty obj ''source'' = Inr (JDict src)"
      "JDict src = py_or (field obj ''source'') (JDict [])" by blast
    have f: "field (JDict src) ''source-client-id'' = field (field obj ''source'') ''source-client-id''"
      using src(2) by (simp add: field_py_or)
    have "is_object (JDict src)" by simp
    from get_or_empty_object [OF this, of "''source-client-id''"] sh(2) f obtain cid where
      cid: "get_or_empty (JDict src) ''source-client-id'' = Inr (JDict cid)" by auto
    have "summary_managed t s =
        Inr (truthy (field (JDict cid) ''path'') \<and> in_strings (field (JDict cid) ''path'') t)"
      using Some src(1) cid
      by (simp add: s summary_managed_def bind_exc_def get_in_def py_get_def)
    then show ?thesis by blast
  qed
qed

lemma group_managed_total:
  assumes "is_object g" "absent_or_objects g ''summaries''"
    "\<forall>s \<in> set (elems (field g ''summaries'')). summary_shaped s"
  shows "\<exists>b. group_managed t g = Inr b"
proof -
  from assms(1) obtain kvs where g: "g = JDict kvs" by (cases g) auto
  from get_default_objects [of kvs "''summaries''"] assms(2) g obtain xs where
    xs: "get_default g ''summaries'' (JList []) = Inr (JList xs)" "list_all is_object xs"
    "xs = elems (field g ''summaries'')" by auto
  have "\<forall>x \<in> set xs. \<exists>b. summary_managed t x = Inr b"
    using xs(2,3) assms(3) summary_managed_total by (auto simp: list_all_iff)
  from first_match_total [OF this] show ?thesis
    using xs(1) by (simp add: group_managed_def bind_exc_def)
qed

lemma section_managed_total:
  assumes "object_or_null (field a sec)"
    "absent_or_objects (field a sec) ''affiliation-group''"
    "\<forall>g \<in> set (elems (field (field a sec) ''affiliation-group'')).
        absent_or_objects g ''summaries'' \<and>
        (\<forall>s \<in> set (elems (field g ''summaries'')). summary_shaped s)"
    and obj: "is_object a"
  shows "\<exists>b. section_managed t a sec = Inr b"
proof -
  from get_or_empty_object [OF obj assms(1)] obtain sd where
    sd: "get_or_empty a sec = Inr (JDict sd)" "JDict sd = py_or (field a sec) (JDict [])" by blast
  have ab: "absent_or_objects (JDict sd) ''affiliation-group''"
    using absent_or_objects_py_or [OF assms(2)] sd(2) by simp
  from get_default_objects [OF ab] obtain xs where
    xs: "get_default (JDict sd) ''affiliation-group'' (JList []) = Inr (JList xs)"
    "list_all is_object xs" "xs = elems (field (JDict sd) ''affiliation-group'')" by auto
  have xs': "xs = elems (field (field a sec) ''affiliation-group'')"
    using xs(3) sd(2) by (simp add: field_py_or)
  have "\<forall>x \<in> set xs. \<exists>b. group_managed t x = Inr b"
    using xs(2) xs' assms(3) group_managed_total by (auto simp: list_all_iff)
  from first_match_total [OF this] show ?thesis
    using sd(1) xs(1) by (simp add: section_managed_def bind_exc_def)
qed

lemma is_managed_total:
  assumes "profile_shaped p"
  shows "\<exists>b. is_managed p t = Inr b"
proof -
  have obj: "is_object p" and on: "object_or_null (field p ''activities-summary'')"
    using assms by (auto simp: profile_shaped_def)
  from get_or_empty_object [OF obj on] obtain a where
    a: "get_or_empty p ''activities-summary'' = Inr (JDict a)"
    "JDict a = py_or (field p ''activities-summary'') (JDict [])" by blast
  define act where "act = JDict a"
  have fa: "\<And>sec. field act sec = field (field p ''activities-summary'') sec"
    using a(2) by (simp add: field_py_or act_def)
  have oa: "is_object act" by (simp add: act_def)
  have "\<forall>sec \<in> set sections_to_check. \<exists>b. section_managed t act sec = Inr b"
  proof
    fix sec assume sec: "sec \<in> set sections_to_check"
    have "object_or_null (field act sec)"
      "absent_or_objects (field act sec) ''affiliation-group''"
      "\<forall>g \<in> set (elems (field (field act sec) ''affiliation-group'')).
        absent_or_objects g ''summaries'' \<and>
        (\<forall>s \<in> set (elems (field g ''summaries'')). summary_shaped s)"
      unfolding fa using assms sec by (auto simp: profile_shaped_def Let_def)
    then show "\<exists>b. section_managed t act sec = Inr b"
      using section_managed_total [of act sec t] oa by blast
  qed
  then have "\<forall>sec \<in> set sections_to_check. \<exists>b. section_managed t (JDict a) sec = Inr b"
    by (simp add: act_def)
  from first_match_total [OF this] show ?thesis
    using a(1) by (simp add: is_managed_def bind_exc_def)
qed

lemma group_managed_short_circuit:
  assumes "\<forall>y \<in> set pre. summary_managed t y = Inr False" "summary_managed t x = Inr True"
  shows "group_managed t (JDict [(''summaries'', JList (pre @ x # rest))]) = Inr True"
  using first_match_short_circuit [of pre "summary_managed t" x rest] assms
  by (simp add: group_managed_def bind_exc_def)

lemmas classifier_defs =
  is_managed_def profile_with_summary_def source_obj_def sections_to_check_def
  section_managed_def group_managed_def summary_managed_def get_or_empty_def get_in_def
  py_get_def bind_exc_def py_or_def

lemma first_match_decided: "decided_at f xs i \<Longrightarrow> first_match f xs = f (xs ! i)"
proof (induction xs arbitrary: i)
  case Nil
  then show ?case by (simp add: decided_at_def)
next
  case (Cons x xs)
  show ?case
  proof (cases i)
    case 0
    then show ?thesis using Cons.prems
      by (cases "f x") (auto simp: decided_at_def)
  next
    case (Suc j)
    then have "decided_at f xs j" "f x = Inr False"
      using Cons.prems by (simp_all add: decided_at_def)
    then show ?thesis using Cons.IH [of j] Suc by simp
  qed
qed

lemma first_match_undecided:
  "list_all (\<lambda>x. f x = Inr False) xs \<Longrightarrow> first_match f xs = Inr False"
  by (induction xs) simp_all

lemma decided_or_not:
  "(\<exists>i. decided_at f xs i) \<or> list_all (\<lambda>x. f x = Inr False) xs"
proof (induction xs)
  case Nil
  then show ?case by simp
next
  case (Cons x xs)
  show ?case
  proof (cases "f x = Inr False")
    case False
    then have "decided_at f (x # xs) 0" by (simp add: decided_at_def)
    then show ?thesis by blast
  next
    case True
    from Cons.IH show ?thesis
    proof
      assume "\<exists>i. decided_at f xs i"
      then obtain i where "decided_at f xs i" by blast
      then have "decided_at f (x # xs) (Suc i)" using True by (simp add: decided_at_def)
      then show ?thesis by blast
    next
      assume "list_all (\<lambda>x. f x = Inr False) xs"
      then show ?thesis using True by simp
    qed
  qed
qed

lemma group_scan:
  "map_of kvs ''summaries'' = Some (JList ss) \<Longrightarrow>
   group_managed t (JDict kvs) = first_match (summary_managed t) ss"
  "map_of kvs ''summaries'' = None \<Longrightarrow> group_managed t (JDict kvs) = Inr False"
  "map_of kvs ''summaries'' = Some JNull \<Longrightarrow>
   group_managed t (JDict kvs) = Inl (not_iterable JNull)"
  by (simp_all add: group_managed_def bind_exc_def)

lemma section_scan:
  assumes "py_or (field activities section) (JDict []) = JDict kvs" "is_object activities"
  shows "map_of kvs ''affiliation-group'' = Some (JList gs) \<Longrightarrow>
     section_managed t activities section = first_match (group_managed t) gs"
    and "map_of kvs ''affiliation-group'' = None \<Longrightarrow>
     section_managed t activities section = Inr False"
    and "map_of kvs ''affiliation-group'' = Some JNull \<Longrightarrow>
     section_managed t activities section = Inl (not_iterable JNull)"
proof -
  obtain akvs where a: "activities = JDict akvs" using assms(2) by (cases activities) auto
  have g: "get_or_empty activities section = Inr (JDict kvs)"
    using assms(1) by (simp add: a get_or_empty_def py_get_def bind_exc_def)
  show "map_of kvs ''affiliation-group'' = Some (JList gs) \<Longrightarrow>
     section_managed t activities section = first_match (group_managed t) gs"
    by (simp add: section_managed_def g bind_exc_def)
  show "map_of kvs ''affiliation-group'' = None \<Longrightarrow>
     section_managed t activities section = Inr False"
    by (simp add: section_managed_def g bind_exc_def)
  show "map_of kvs ''affiliation-group'' = Some JNull \<Longrightarrow>
     section_managed t activities section = Inl (not_iterable JNull)"
    by (simp add: section_managed_def g bind_exc_def)
qed

lemma profile_scan:
  "is_object p \<Longrightarrow>
   is_managed p t =
     first_match (section_managed t (py_or (field p ''activities-summary'') (JDict [])))
       sections_to_check"
  by (cases p) (simp_all add: is_managed_def get_or_empty_def py_get_def bind_exc_def)

text \<open>
  Claim C4 as stated fails. A summary holding two nested objects with a \<open>source\<close> field, the
  first untrusted and the second trusted, contains a nested object whose client-id path is
  trusted, yet the classifier answers false: it reads only the first such object. A
  trusted set containing the empty string does not match an empty path either. And the
  classifier can raise: a section whose list of affiliation groups is null, or a group
  whose list of summaries is null, raises \<^verbatim>\<open>TypeError\<close>.
\<close>

theorem C4_counterexample:
  "some_source_trusted [''APP-TRUSTED''] two_sources_profile
   \<and> is_managed two_sources_profile [''APP-TRUSTED''] = Inr False
   \<and> some_source_trusted [[]] empty_path_profile
   \<and> is_managed empty_path_profile [[]] = Inr False
   \<and> is_managed null_group_profile [''APP-TRUSTED''] =
       Inl (TypeError (quoted ''NoneType'' @ '' object is not iterable''))
   \<and> is_managed null_summaries_profile [''APP-TRUSTED''] =
       Inl (TypeError (quoted ''NoneType'' @ '' object is not iterable''))"
proof -
  have a: "some_source_trusted [''APP-TRUSTED''] two_sources_profile"
    by (simp add: some_source_trusted_def all_summaries_def client_path_def
        two_sources_profile_def profile_with_summary_def source_obj_def sections_to_check_def)
  have b: "is_managed two_sources_profile [''APP-TRUSTED''] = Inr False"
    by (simp add: two_sources_profile_def classifier_defs)
  have c: "some_source_trusted [[]] empty_path_profile"
    by (simp add: some_source_trusted_def all_summaries_def client_path_def
        empty_path_profile_def profile_with_summary_def source_obj_def sections_to_check_def)
  have d: "is_managed empty_path_profile [[]] = Inr False"
    by (simp add: empty_path_profile_def classifier_defs)
  have e: "is_managed null_group_profile [''APP-TRUSTED''] =
       Inl (TypeError (quoted ''NoneType'' @ '' object is not iterable''))"
    by (simp add: null_group_profile_def classifier_defs not_iterable_def)
  have f: "is_managed null_summaries_profile [''APP-TRUSTED''] =
       Inl (TypeError (quoted ''NoneType'' @ '' object is not iterable''))"
    by (simp add: null_summaries_profile_def classifier_defs not_iterable_def)
  show ?thesis using a b c d e f by simp
qed

text \<open>
  Claim C4, amended. Whenever the classifier returns, its answer is true exactly when, in
  some summary of some affiliation group of one of the seven sections, the first nested
  object carrying a \<open>source\<close> field has a non-empty source-client-id path in the trusted
  list. On every document of the registry's shape it returns without raising, missing
  sections, groups and fields counting as non-matches. The classifier scans the seven
  sections in their fixed order, the affiliation groups of a section in order and the
  summaries of a group in order, and the scan is decided at the first element that
  matches or raises: the answer is then true, or the exception is raised, whatever
  follows; the answer is false when every element is a non-match. A list of affiliation
  groups or of summaries that is absent is a non-match; one that is present and null
  raises \<^verbatim>\<open>TypeError\<close>. An empty document and an empty activities object classify as
  false.
\<close>

theorem C4_classifier:
  "(is_managed p t = Inr b \<longrightarrow> b = first_source_trusted t p)
   \<and> (profile_shaped p \<longrightarrow> is_managed p t = Inr (first_source_trusted t p))
   \<and> (extract_status_from_profile p ror_id orcid t = Inr st \<longrightarrow>
        st = \<lparr>rs_ror_id = ror_id, rs_orcid = orcid,
               is_managed_by_am = first_source_trusted t p\<rparr>)
   \<and> (summary_managed t s = Inr m \<longrightarrow> m = summary_trusted t s)
   \<and> (is_object p \<and> activities = py_or (field p ''activities-summary'') (JDict []) \<longrightarrow>
        (decided_at (section_managed t activities) sections_to_check i \<longrightarrow>
           is_managed p t = section_managed t activities (sections_to_check ! i)) \<and>
        (list_all (\<lambda>sec. section_managed t activities sec = Inr False)
           sections_to_check \<longrightarrow> is_managed p t = Inr False))
   \<and> (is_object a \<and> py_or (field a sec) (JDict []) = JDict skvs \<longrightarrow>
        (map_of skvs ''affiliation-group'' = None \<longrightarrow> section_managed t a sec = Inr False) \<and>
        (map_of skvs ''affiliation-group'' = Some JNull \<longrightarrow>
           section_managed t a sec = Inl (not_iterable JNull)) \<and>
        (map_of skvs ''affiliation-group'' = Some (JList gs) \<longrightarrow>
           (decided_at (group_managed t) gs j \<longrightarrow>
              section_managed t a sec = group_managed t (gs ! j)) \<and>
           (list_all (\<lambda>g. group_managed t g = Inr False) gs \<longrightarrow>
              section_managed t a sec = Inr False)))
   \<and> ((map_of gkvs ''summaries'' = None \<longrightarrow> group_managed t (JDict gkvs) = Inr False) \<and>
       (map_of gkvs ''summaries'' = Some JNull \<longrightarrow>
          group_managed t (JDict gkvs) = Inl (not_iterable JNull)) \<and>
       (map_of gkvs ''summaries'' = Some (JList ss) \<longrightarrow>
          (decided_at (summary_managed t) ss k \<longrightarrow>
             group_managed t (JDict gkvs) = summary_managed t (ss ! k)) \<and>
          (list_all (\<lambda>s. summary_managed t s = Inr False) ss \<longrightarrow>
             group_managed t (JDict gkvs) = Inr False)))
   \<and> ((\<forall>y \<in> set pre. summary_managed t y = Inr False) \<and> summary_managed t x = Inr True \<longrightarrow>
        group_managed t (JDict [(''summaries'', JList (pre @ x # rest))]) = Inr True)
   \<and> is_managed (JDict []) t = Inr False
   \<and> is_managed (JDict [(''activities-summary'', JDict [])]) t = Inr False"
proof -
  have c1: "is_managed p t = Inr b \<longrightarrow> b = first_source_trusted t p"
    using is_managed_Inr by blast
  have c2: "profile_shaped p \<longrightarrow> is_managed p t = Inr (first_source_trusted t p)"
  proof
    assume "profile_shaped p"
    then obtain b where b: "is_managed p t = Inr b" using is_managed_total by blast
    then show "is_managed p t = Inr (first_source_trusted t p)" using is_managed_Inr by blast
  qed
  have c3: "extract_status_from_profile p ror_id orcid t = Inr st \<longrightarrow>
        st = \<lparr>rs_ror_id = ror_id, rs_orcid = orcid,
               is_managed_by_am = first_source_trusted t p\<rparr>"
  proof
    assume "extract_status_from_profile p ror_id orcid t = Inr st"
    then obtain m where m: "is_managed p t = Inr m"
      and st: "st = \<lparr>rs_ror_id = ror_id, rs_orcid = orcid, is_managed_by_am = m\<rparr>"
      unfolding extract_status_from_profile_def bind_exc_Inr_iff by auto
    show "st = \<lparr>rs_ror_id = ror_id, rs_orcid = orcid,
               is_managed_by_am = first_source_trusted t p\<rparr>"
      using st is_managed_Inr [OF m] by simp
  qed
  have c4: "summary_managed t s = Inr m \<longrightarrow> m = summary_trusted t s"
    using summary_managed_Inr by blast
  have c5: "is_object p \<and> activities = py_or (field p ''activities-summary'') (JDict []) \<longrightarrow>
        (decided_at (section_managed t activities) sections_to_check i \<longrightarrow>
           is_managed p t = section_managed t activities (sections_to_check ! i)) \<and>
        (list_all (\<lambda>sec. section_managed t activities sec = Inr False)
           sections_to_check \<longrightarrow> is_managed p t = Inr False)"
  proof (intro impI conjI)
    assume h: "is_object p \<and> activities = py_or (field p ''activities-summary'') (JDict [])"
      and d: "decided_at (section_managed t activities) sections_to_check i"
    have m: "is_managed p t = first_match (section_managed t activities) sections_to_check"
      using h profile_scan [of p t] by simp
    show "is_managed p t = section_managed t activities (sections_to_check ! i)"
      unfolding m by (rule first_match_decided [OF d])
  next
    assume h: "is_object p \<and> activities = py_or (field p ''activities-summary'') (JDict [])"
      and l: "list_all (\<lambda>sec. section_managed t activities sec = Inr False)
           sections_to_check"
    have m: "is_managed p t = first_match (section_managed t activities) sections_to_check"
      using h profile_scan [of p t] by simp
    show "is_managed p t = Inr False"
      unfolding m by (rule first_match_undecided [OF l])
  qed
  have c6: "is_object a \<and> py_or (field a sec) (JDict []) = JDict skvs \<longrightarrow>
        (map_of skvs ''affiliation-group'' = None \<longrightarrow> section_managed t a sec = Inr False) \<and>
        (map_of skvs ''affiliation-group'' = Some JNull \<longrightarrow>
           section_managed t a sec = Inl (not_iterable JNull)) \<and>
        (map_of skvs ''affiliation-group'' = Some (JList gs) \<longrightarrow>
           (decided_at (group_managed t) gs j \<longrightarrow>
              section_managed t a sec = group_managed t (gs ! j)) \<and>
           (list_all (\<lambda>g. group_managed t g = Inr False) gs \<longrightarrow>
              section_managed t a sec = Inr False))"
  proof (intro impI conjI)
    assume h: "is_object a \<and> py_or (field a sec) (JDict []) = JDict skvs"
    note sc = section_scan [OF h [THEN conjunct2] h [THEN conjunct1]]
    {
      assume "map_of skvs ''affiliation-group'' = None"
      then show "section_managed t a sec = Inr False" by (rule sc(2))
    next
      assume "map_of skvs ''affiliation-group'' = Some JNull"
      then show "section_managed t a sec = Inl (not_iterable JNull)" by (rule sc(3))
    next
      assume g: "map_of skvs ''affiliation-group'' = Some (JList gs)"
        and d: "decided_at (group_managed t) gs j"
      show "section_managed t a sec = group_managed t (gs ! j)"
        unfolding sc(1) [OF g] by (rule first_match_decided [OF d])
    next
      assume g: "map_of skvs ''affiliation-group'' = Some (JList gs)"
        and l: "list_all (\<lambda>g. group_managed t g = Inr False) gs"
      show "section_managed t a sec = Inr False"
        unfolding sc(1) [OF g] by (rule first_match_undecided [OF l])
    }
  qed
  have c7: "(map_of gkvs ''summaries'' = None \<longrightarrow> group_managed t (JDict gkvs) = Inr False) \<and>
       (map_of gkvs ''summaries'' = Some JNull \<longrightarrow>
          group_managed t (JDict gkvs) = Inl (not_iterable JNull)) \<and>
       (map_of gkvs ''summaries'' = Some (JList ss) \<longrightarrow>
          (decided_at (summary_managed t) ss k \<longrightarrow>
             group_managed t (JDict gkvs) = summary_managed t (ss ! k)) \<and>
          (list_all (\<lambda>s. summary_managed t s = Inr False) ss \<longrightarrow>
             group_managed t (JDict gkvs) = Inr False))"
  proof (intro impI conjI)
    assume "map_of gkvs ''summaries'' = None"
    then show "group_managed t (JDict gkvs) = Inr False" by (rule group_scan(2))
  next
    assume "map_of gkvs ''summaries'' = Some JNull"
    then show "group_managed t (JDict gkvs) = Inl (not_iterable JNull)" by (rule group_scan(3))
  next
    assume g: "map_of gkvs ''summaries'' = Some (JList ss)"
      and d: "decided_at (summary_managed t) ss k"
    show "group_managed t (JDict gkvs) = summary_managed t (ss ! k)"
      unfolding group_scan(1) [OF g] by (rule first_match_decided [OF d])
  next
    assume g: "map_of gkvs ''summaries'' = Some (JList ss)"
      and l: "list_all (\<lambda>s. summary_managed t s = Inr False) ss"
    show "group_managed t (JDict gkvs) = Inr False"
      unfolding group_scan(1) [OF g] by (rule first_match_undecided [OF l])
  qed
  have c8: "(\<forall>y \<in> set pre. summary_managed t y = Inr False) \<and> summary_managed t x = Inr True \<longrightarrow>
        group_managed t (JDict [(''summaries'', JList (pre @ x # rest))]) = Inr True"
    using group_managed_short_circuit by blast
  have c9: "is_managed (JDict []) t = Inr False"
    by (simp add: classifier_defs)
  have c10: "is_managed (JDict [(''activities-summary'', JDict [])]) t = Inr False"
    by (simp add: classifier_defs)
  show ?thesis
    by (rule conjI [OF c1 conjI [OF c2 conjI [OF c3 conjI [OF c4 conjI [OF c5
        conjI [OF c6 conjI [OF c7 conjI [OF c8 conjI [OF c9 c10]]]]]]]]])
qed

theorem C4_classifier_witness:
  "profile_shaped managed_profile
   \<and> is_managed managed_profile [''APP-TRUSTED''] = Inr True
   \<and> is_managed managed_profile [''APP-OTHER''] = Inr False
   \<and> extract_status_from_profile managed_profile ''02ap3w078'' ''0000-0001'' [''APP-TRUSTED'']
       = Inr \<lparr>rs_ror_id = ''02ap3w078'', rs_orcid = ''0000-0001'', is_managed_by_am = True\<rparr>
   \<and> decided_at (summary_managed [''APP-TRUSTED'']) scan_summaries 1
   \<and> group_managed [''APP-TRUSTED''] (JDict [(''summaries'', JList scan_summaries)]) = Inr True
   \<and> decided_at (group_managed [''APP-TRUSTED'']) scan_groups 0
   \<and> section_managed [''APP-TRUSTED''] scan_activities ''employments'' = Inr True
   \<and> decided_at (section_managed [''APP-TRUSTED''] scan_activities) sections_to_check 0
   \<and> is_managed (JDict [(''activities-summary'', scan_activities)]) [''APP-TRUSTED''] = Inr True"
proof -
  let ?t = "[''APP-TRUSTED'']"
  have sh: "profile_shaped managed_profile"
    by (simp add: profile_shaped_def managed_profile_def profile_with_summary_def
        source_obj_def sections_to_check_def summary_shaped_def)
  have tr: "first_source_trusted ?t managed_profile"
    by (simp add: first_source_trusted_def all_summaries_def client_path_def
        managed_profile_def profile_with_summary_def source_obj_def sections_to_check_def)
  have ntr: "\<not> first_source_trusted [''APP-OTHER''] managed_profile"
    by (simp add: first_source_trusted_def all_summaries_def client_path_def
        managed_profile_def profile_with_summary_def source_obj_def sections_to_check_def)
  have ex: "extract_status_from_profile managed_profile ''02ap3w078'' ''0000-0001'' ?t
       = Inr \<lparr>rs_ror_id = ''02ap3w078'', rs_orcid = ''0000-0001'', is_managed_by_am = True\<rparr>"
    by (simp add: extract_status_from_profile_def managed_profile_def classifier_defs)
  have u: "summary_managed ?t untrusted_summary = Inr False"
    by (simp add: untrusted_summary_def classifier_defs)
  have v: "summary_managed ?t trusted_summary = Inr True"
    by (simp add: trusted_summary_def classifier_defs)
  have d1: "decided_at (summary_managed ?t) scan_summaries 1"
    by (simp add: decided_at_def scan_summaries_def u v)
  note c = C4_classifier [where p = "JDict [(''activities-summary'', scan_activities)]"
      and t = ?t and activities = scan_activities and i = 0
      and a = scan_activities and sec = "''employments''"
      and skvs = "[(''affiliation-group'', JList scan_groups)]" and gs = scan_groups and j = 0
      and gkvs = "[(''summaries'', JList scan_summaries)]" and ss = scan_summaries and k = 1]
  note k5 = c [THEN conjunct2, THEN conjunct2, THEN conjunct2, THEN conjunct2, THEN conjunct1]
  note k6 = c [THEN conjunct2, THEN conjunct2, THEN conjunct2, THEN conjunct2, THEN conjunct2,
      THEN conjunct1]
  note k7 = c [THEN conjunct2, THEN conjunct2, THEN conjunct2, THEN conjunct2, THEN conjunct2,
      THEN conjunct2, THEN conjunct1]
  have "group_managed ?t (JDict [(''summaries'', JList scan_summaries)]) =
      summary_managed ?t (scan_summaries ! 1)"
    by (rule k7 [THEN conjunct2, THEN conjunct2, THEN mp, THEN conjunct1, THEN mp, OF _ d1]) simp
  then have g: "group_managed ?t (JDict [(''summaries'', JList scan_summaries)]) = Inr True"
    using v by (simp add: scan_summaries_def)
  have d2: "decided_at (group_managed ?t) scan_groups 0"
    using g by (simp add: decided_at_def scan_groups_def)
  have o: "is_object scan_activities \<and>
      py_or (field scan_activities ''employments'') (JDict []) =
        JDict [(''affiliation-group'', JList scan_groups)]"
    by (simp add: scan_activities_def py_or_def)
  have "section_managed ?t scan_activities ''employments'' = group_managed ?t (scan_groups ! 0)"
    by (rule k6 [THEN mp, OF o, THEN conjunct2, THEN conjunct2, THEN mp, THEN conjunct1, THEN mp,
        OF _ d2]) simp
  then have s: "section_managed ?t scan_activities ''employments'' = Inr True"
    using g by (simp add: scan_groups_def)
  have d3: "decided_at (section_managed ?t scan_activities) sections_to_check 0"
    using s by (simp add: decided_at_def sections_to_check_def)
  have o2: "is_object (JDict [(''activities-summary'', scan_activities)]) \<and>
      scan_activities =
        py_or (field (JDict [(''activities-summary'', scan_activities)]) ''activities-summary'')
          (JDict [])"
    by (simp add: py_or_def scan_activities_def)
  have "is_managed (JDict [(''activities-summary'', scan_activities)]) ?t =
      section_managed ?t scan_activities (sections_to_check ! 0)"
    by (rule k5 [THEN mp, OF o2, THEN conjunct1, THEN mp, OF d3])
  then have m: "is_managed (JDict [(''activities-summary'', scan_activities)]) ?t = Inr True"
    using s by (simp add: sections_to_check_def)
  have r1: "is_managed managed_profile ?t = Inr True"
    using C4_classifier [where p = managed_profile and t = ?t, THEN conjunct2, THEN conjunct1]
      sh tr by simp
  have r2: "is_managed managed_profile [''APP-OTHER''] = Inr False"
    using C4_classifier [where p = managed_profile and t = "[''APP-OTHER'']", THEN conjunct2,
        THEN conjunct1] sh ntr by simp
  show ?thesis using r1 r2 sh ex d1 g d2 s d3 m by simp
qed

section \<open>Properties of the registry search\<close>



lemma assign_all_append: "assign_all d (a @ b) = assign_all (assign_all d a) b"
  by (simp add: assign_all_def)







lemma page_at_shift: "page_at api rows (start + rows) i = page_at api rows start (Suc i)"
  by (simp add: page_at_def add.assoc)

lemma pages_assigned_shift:
  "pages_assigned api rows start (Suc n) =
     fst (page_assignments (api start) rows) @ pages_assigned api rows (start + rows) n"
proof -
  have "[0..<Suc n] = 0 # [Suc 0..<Suc n]" by (rule upt_conv_Cons) simp
  also have "[Suc 0..<Suc n] = map Suc [0..<n]" by (simp only: map_Suc_upt)
  finally have u: "[0..<Suc n] = 0 # map Suc [0..<n]" .
  have z: "page_at api rows start 0 = page_assignments (api start) rows"
    by (simp add: page_at_def)
  show ?thesis
    unfolding pages_assigned_def u by (simp add: page_at_shift comp_def z)
qed

lemma stops_at_shift:
  "snd (page_assignments (api start) rows) \<Longrightarrow>
   stops_at api rows start (Suc n) = stops_at api rows (start + rows) n"
proof -
  assume c: "snd (page_assignments (api start) rows)"
  have z: "snd (page_at api rows start 0)" using c by (simp add: page_at_def)
  have "(\<forall>i < Suc n. snd (page_at api rows start i)) = (\<forall>i < n. snd (page_at api rows start (Suc i)))"
    using z by (auto simp: less_Suc_eq_0_disj)
  then show ?thesis by (simp add: stops_at_def page_at_shift)
qed

lemma search_pages_stops:
  "stops_at api rows start n \<Longrightarrow>
   search_pages api rows start d = Some (assign_all d (pages_assigned api rows start (Suc n)))"
proof (induction n arbitrary: start d)
  case 0
  then have "\<not> snd (page_assignments (api start) rows)"
    by (simp add: stops_at_def page_at_def)
  then obtain a where a: "page_assignments (api start) rows = (a, False)"
    by (cases "page_assignments (api start) rows") auto
  show ?case
    by (subst search_pages.simps) (simp add: a pages_assigned_def page_at_def)
next
  case (Suc n)
  have c: "snd (page_assignments (api start) rows)"
    using Suc.prems by (auto simp: stops_at_def page_at_def dest: spec [of _ 0])
  have st: "stops_at api rows (start + rows) n"
    using Suc.prems c stops_at_shift [of api start rows n] by simp
  have pa: "pages_assigned api rows start (Suc (Suc n)) =
      fst (page_assignments (api start) rows) @ pages_assigned api rows (start + rows) (Suc n)"
    by (rule pages_assigned_shift)
  from c obtain a where a: "page_assignments (api start) rows = (a, True)"
    by (cases "page_assignments (api start) rows") auto
  show ?case
    using Suc.IH [OF st, of "assign_all d a"]
    by (subst search_pages.simps) (simp add: a pa assign_all_append)
qed










lemma list_orcids_performed:
  "search_performed e ror_id grid_id base_url \<Longrightarrow>
   list_orcids_for_institution e ror_id grid_id base_url rows =
     map_option (map snd) (search_pages (institution_api e ror_id grid_id) rows 0 [])"
  by (simp add: search_performed_def list_orcids_for_institution_def institution_api_def)

lemma list_orcids_not_performed:
  "\<not> search_performed e ror_id grid_id base_url \<Longrightarrow>
   list_orcids_for_institution e ror_id grid_id base_url rows = Some []"
  by (auto simp: search_performed_def list_orcids_for_institution_def)



lemma safe_get_first_200:
  "net 1 = Response r \<Longrightarrow> status_code r = 200 \<Longrightarrow> fst (safe_get net default_retries) = Some r"
  using safe_get_from_final [of 1 default_retries net]
  by (simp add: safe_get_def default_retries_def is_final_def final_value_def)





section \<open>Properties of the concurrent profile fetcher\<close>




lemma profiles_fetched:
  assumes "get_client_credentials_token e = Inr token"
  shows "get_all_profiles_concurrently e orcid_ids =
     Inr (if has_credentials e then foldl (collect_profile e) [] (as_completed e orcid_ids) else [])"
  using assms by (simp add: get_all_profiles_concurrently_def bind_exc_def has_credentials_def)












lemma safe_get_never_final:
  "(\<And>k. \<not> is_final (net k)) \<Longrightarrow> fst (safe_get net retries) = None"
  using safe_get_from_exhausted [of 1 retries net] by (simp add: safe_get_def)




section \<open>Frame properties of the rebuilds\<close>

lemma next_commit_tables:
  "users (snd (next_commit st)) = users st"
  "work_cache (snd (next_commit st)) = work_cache st"
  "researcher_status_table (snd (next_commit st)) = researcher_status_table st"
  "funding_cache (snd (next_commit st)) = funding_cache st"
  "work_cache_run (snd (next_commit st)) = work_cache_run st"
  "funding_cache_run (snd (next_commit st)) = funding_cache_run st"
  by (simp_all add: next_commit_def split: option.splits)


lemma heal_same_runs: "same_runs st (snd (ensure_and_heal_grid_for_ror e ror_id st))"
  using next_commit_tables [of st]
  by (cases "next_commit st")
     (auto simp: ensure_and_heal_grid_for_ror_def same_runs_def Let_def rollback_def
        split: option.splits)

lemma build_works_empty:
  "list_orcids_for_institution e ror_id (fst (ensure_and_heal_grid_for_ror e ror_id st))
     base_url default_rows = Some [] \<Longrightarrow>
   build_works_cache_for_ror e ror_id base_url st =
     Some (Inr 0, snd (ensure_and_heal_grid_for_ror e ror_id st))"
  by (cases "ensure_and_heal_grid_for_ror e ror_id st")
     (simp add: build_works_cache_for_ror_def)

lemma build_fundings_empty:
  "list_orcids_for_institution e ror_id (fst (ensure_and_heal_grid_for_ror e ror_id st))
     base_url default_rows = Some [] \<Longrightarrow>
   build_fundings_cache_for_ror e ror_id base_url st =
     Some (Inr 0, snd (ensure_and_heal_grid_for_ror e ror_id st))"
  by (cases "ensure_and_heal_grid_for_ror e ror_id st")
     (simp add: build_fundings_cache_for_ror_def)

lemma first_page_failed:
  assumes "fst (safe_get (institution_api e ror_id grid_id 0) default_retries) = None"
  shows "list_orcids_for_institution e ror_id grid_id base_url rows = Some []"
proof (cases "search_performed e ror_id grid_id base_url")
  case False
  then show ?thesis by (rule list_orcids_not_performed)
next
  case True
  have p: "page_assignments (institution_api e ror_id grid_id 0) rows = ([], False)"
    using assms by (simp add: page_assignments_def)
  then have "stops_at (institution_api e ror_id grid_id) rows 0 0"
    by (simp add: stops_at_def page_at_def)
  from search_pages_stops [OF this, of "[]"] show ?thesis
    using p by (simp add: list_orcids_performed [OF True] pages_assigned_def page_at_def
        assign_all_def)
qed


lemma failing_env_heal:
  "ensure_and_heal_grid_for_ror failing_search_env ''02ap3w078'' cached_store =
     (JNull, cached_store)"
  by (simp add: ensure_and_heal_grid_for_ror_def fetch_grid_from_ror_def failing_search_env_def
      cached_store_def)


section \<open>Properties of the identifier healer\<close>

lemma fetch_grid_failed: "lookup_failed e ror_id \<Longrightarrow> fetch_grid_from_ror e ror_id = JNull"
  by (auto simp: lookup_failed_def fetch_grid_from_ror_def split: http_outcome.splits)

lemma heal_lookup_failed:
  assumes "lookup_failed e ror_id" "find (has_grid ror_id) (users st) = None"
  shows "ensure_and_heal_grid_for_ror e ror_id st = (JNull, st)"
  using assms by (simp add: ensure_and_heal_grid_for_ror_def fetch_grid_failed)




section \<open>Properties of the run-log writers\<close>

lemma log_run_web_ok:
  "commit_succeeds st \<Longrightarrow>
   new_runs st (log_run_web WorkCacheRun ror_id status n err now st)
     [\<lparr>run_ror_id = ror_id, run_status = status, run_rows_count = n,
       run_error = err, run_started_at = now, run_finished_at = Some now\<rparr>] []"
  "commit_succeeds st \<Longrightarrow>
   new_runs st (log_run_web FundingCacheRun ror_id status n err now st) []
     [\<lparr>run_ror_id = ror_id, run_status = status, run_rows_count = n,
       run_error = err, run_started_at = now, run_finished_at = Some now\<rparr>]"
  by (simp_all add: log_run_web_def next_commit_def add_run_def new_runs_def commit_succeeds_def)

lemma log_run_web_fails:
  "\<not> commit_succeeds st \<Longrightarrow>
   new_runs st (log_run_web model_class ror_id status n err now st) [] []"
  by (auto simp: log_run_web_def next_commit_def new_runs_def commit_succeeds_def rollback_def
      split: option.splits)

lemma log_run_web_rows:
  "\<exists>ws fs. new_runs st (log_run_web model_class ror_id status n err now st) ws fs \<and>
     length (ws @ fs) \<le> 1 \<and>
     (\<forall>r \<in> set (ws @ fs). run_finished_at r = Some (run_started_at r) \<and> run_status r = status)"
proof -
  define row where "row = \<lparr>run_ror_id = ror_id, run_status = status, run_rows_count = n,
       run_error = err, run_started_at = now, run_finished_at = Some now\<rparr>"
  have p: "\<forall>r \<in> set [row]. run_finished_at r = Some (run_started_at r) \<and> run_status r = status"
    by (simp add: row_def)
  consider (w) "commit_succeeds st" "model_class = WorkCacheRun"
    | (f) "commit_succeeds st" "model_class = FundingCacheRun"
    | (x) "\<not> commit_succeeds st"
    by (cases model_class) auto
  then show ?thesis
  proof cases
    case w
    then have "new_runs st (log_run_web model_class ror_id status n err now st) [row] []"
      using log_run_web_ok(1) [of st ror_id status n err now] by (simp add: row_def)
    then show ?thesis using p by (intro exI [of _ "[row]"] exI [of _ "[]"]) simp
  next
    case f
    then have "new_runs st (log_run_web model_class ror_id status n err now st) [] [row]"
      using log_run_web_ok(2) [of st ror_id status n err now] by (simp add: row_def)
    then show ?thesis using p by (intro exI [of _ "[]"] exI [of _ "[row]"]) simp
  next
    case x
    then have "new_runs st (log_run_web model_class ror_id status n err now st) [] []"
      by (rule log_run_web_fails)
    then show ?thesis by (intro exI [of _ "[]"]) simp
  qed
qed

lemma log_execution_run_rows:
  "\<exists>ws fs. new_runs st (log_execution_run model_class ror_id status n err now st) ws fs \<and>
     length (ws @ fs) \<le> 1 \<and>
     (\<forall>r \<in> set (ws @ fs). run_finished_at r = Some (run_started_at r) \<and> run_status r = status)"
proof (cases "ror_id = []")
  case True
  then have "new_runs st (log_execution_run model_class ror_id status n err now st) [] []"
    by (simp add: log_execution_run_def new_runs_def)
  then show ?thesis by (intro exI [of _ "[]"]) simp
next
  case False
  then show ?thesis using log_run_web_rows by (simp add: log_execution_run_def)
qed

lemma logged_rows:
  assumes "\<And>model_class ror_id status n err now st.
    \<exists>ws fs. new_runs st (writer model_class ror_id status n err now st) ws fs \<and>
     length (ws @ fs) \<le> 1 \<and>
     (\<forall>r \<in> set (ws @ fs). run_finished_at r = Some (run_started_at r) \<and> run_status r = status)"
  shows "\<exists>ws fs. new_runs (snd outcome) (logged writer model_class ror_id now outcome) ws fs \<and>
     length (ws @ fs) \<le> 1 \<and> (\<forall>r \<in> set (ws @ fs). well_logged r)"
proof (cases outcome)
  case (Pair res st)
  show ?thesis
  proof (cases res)
    case (Inl exc)
    from assms [of st model_class ror_id "''failed''" 0 "Some (str_exc exc)" now]
    show ?thesis unfolding Pair Inl by (auto simp: logged_def well_logged_def)
  next
    case (Inr n)
    from assms [of st model_class ror_id "''success''" n None now]
    show ?thesis unfolding Pair Inr by (auto simp: logged_def well_logged_def)
  qed
qed

lemma same_runs_refl: "same_runs st st"
  by (simp add: same_runs_def)

lemma same_runs_trans: "same_runs a b \<Longrightarrow> same_runs b c \<Longrightarrow> same_runs a c"
  by (simp add: same_runs_def)

lemma next_commit_runs: "same_runs st (snd (next_commit st))"
  by (simp add: same_runs_def next_commit_tables)

lemma frame_refl: "frame st st"
  by (simp add: frame_def same_runs_def)

lemma frame_trans: "frame a b \<Longrightarrow> frame b c \<Longrightarrow> frame a c"
  by (auto simp: frame_def same_runs_def)

lemma frame_runs: "frame st st' \<Longrightarrow> same_runs st st'"
  by (simp add: frame_def)

lemma next_commit_session:
  "needs_rollback (snd (next_commit st)) = (fst (next_commit st) \<noteq> None)"
  by (simp add: next_commit_def split: option.splits)

lemma commit_frame:
  "next_commit st = (None, st') \<Longrightarrow> frame st st'"
  "next_commit st = (Some exc, st') \<Longrightarrow> frame st (rollback st')"
  using next_commit_runs [of st] next_commit_session [of st]
  by (simp_all add: frame_def same_runs_def rollback_def)

lemma flush_bulk_frame:
  assumes "\<And>b s. frame s (save b s)"
  shows "frame st (snd (snd (flush_bulk bulk save st)))"
proof (cases "bulk = []")
  case True
  then show ?thesis by (simp add: flush_bulk_def frame_refl)
next
  case False
  obtain r st' where n: "next_commit st = (r, st')" by (cases "next_commit st")
  show ?thesis
  proof (cases r)
    case None
    then show ?thesis
      using False n frame_trans [OF commit_frame(1) assms [of st' bulk], of st]
      by (simp add: flush_bulk_def)
  next
    case (Some exc)
    then show ?thesis
      using False n commit_frame(2) [of st exc st'] by (simp add: flush_bulk_def)
  qed
qed

lemma flush_if_full_frame:
  assumes "\<And>b s. frame s (save b s)"
  shows "frame st (snd (flush_if_full limit buffer save st))"
  using flush_bulk_frame [OF assms, of st buffer]
  by (simp add: flush_if_full_def frame_refl)

lemma save_frame:
  "frame s (save_works ws s)" "frame s (save_statuses ss s)"
  "frame s (save_fundings fs s)"
  by (simp_all add: frame_def same_runs_def save_works_def save_statuses_def save_fundings_def)

lemma heal_frame: "frame st (snd (ensure_and_heal_grid_for_ror e ror_id st))"
proof -
  obtain r st' where n: "next_commit st = (r, st')" by (cases "next_commit st")
  show ?thesis
    using n commit_frame [of st] frame_refl [of st]
    by (cases r) (auto simp: ensure_and_heal_grid_for_ror_def Let_def frame_def same_runs_def)
qed

lemma purge_runs:
  "same_runs st (snd (purge_works ror_id st))" "same_runs st (snd (purge_fundings ror_id st))"
  using next_commit_tables [of st]
  by (cases "next_commit st"; cases "fst (next_commit st)";
      simp add: purge_works_def purge_fundings_def same_runs_def)+

lemma purge_session:
  "needs_rollback (snd (purge_works ror_id st)) = (fst (purge_works ror_id st) \<noteq> None)"
  "needs_rollback (snd (purge_fundings ror_id st)) = (fst (purge_fundings ror_id st) \<noteq> None)"
  using next_commit_session [of st]
  by (cases "next_commit st"; cases "fst (next_commit st)";
      simp add: purge_works_def purge_fundings_def)+

lemma works_loop_frame:
  "frame st (snd (works_loop ror_id trusted_ids ps n wb sb st))"
proof (induction ps arbitrary: n wb sb st)
  case Nil
  then show ?case by (simp add: frame_refl)
next
  case (Cons p ps)
  obtain oid profile where p: "p = (oid, profile)" by (cases p)
  show ?case
  proof (cases "truthy profile")
    case False
    then show ?thesis using Cons.IH by (simp add: p)
  next
    case True
    show ?thesis
    proof (cases "extract_status_from_profile profile ror_id oid trusted_ids")
      case (Inl exc)
      then show ?thesis using True by (simp add: p frame_refl)
    next
      case (Inr status)
      show ?thesis
      proof (cases "works_of_profile ror_id oid profile")
        case (Inl exc)
        then show ?thesis using True Inr by (simp add: p frame_refl)
      next
        case rows: (Inr new_rows)
        obtain wb' st1 where f1: "flush_if_full 2000 (wb @ new_rows) save_works st = (wb', st1)"
          by (cases "flush_if_full 2000 (wb @ new_rows) save_works st")
        obtain sb' st2 where f2: "flush_if_full 1000 (sb @ [status]) save_statuses st1 = (sb', st2)"
          by (cases "flush_if_full 1000 (sb @ [status]) save_statuses st1")
        have a: "frame st st1"
          using flush_if_full_frame [of save_works st 2000 "wb @ new_rows"] save_frame f1 by simp
        have b: "frame st1 st2"
          using flush_if_full_frame [of save_statuses st1 1000 "sb @ [status]"] save_frame f2
          by simp
        have "frame st2 (snd (works_loop ror_id trusted_ids ps (n + length new_rows) wb' sb' st2))"
          by (rule Cons.IH)
        then show ?thesis
          using True Inr rows f1 f2 frame_trans [OF a b] frame_trans
          by (simp add: p)
      qed
    qed
  qed
qed

lemma fundings_loop_frame:
  "frame st (snd (fundings_loop ror_id ps n fb st))"
proof (induction ps arbitrary: n fb st)
  case Nil
  then show ?case by (simp add: frame_refl)
next
  case (Cons p ps)
  obtain oid profile where p: "p = (oid, profile)" by (cases p)
  show ?case
  proof (cases "truthy profile")
    case False
    then show ?thesis using Cons.IH by (simp add: p)
  next
    case True
    show ?thesis
    proof (cases "fundings_of_profile ror_id oid profile")
      case (Inl exc)
      then show ?thesis using True by (simp add: p frame_refl)
    next
      case rows: (Inr new_rows)
      obtain fb' st1 where f1: "flush_if_full 2000 (fb @ new_rows) save_fundings st = (fb', st1)"
        by (cases "flush_if_full 2000 (fb @ new_rows) save_fundings st")
      have a: "frame st st1"
        using flush_if_full_frame [of save_fundings st 2000 "fb @ new_rows"] save_frame f1 by simp
      have "frame st1 (snd (fundings_loop ror_id ps (n + length new_rows) fb' st1))"
        by (rule Cons.IH)
      then show ?thesis
        using True rows f1 frame_trans [OF a] by (simp add: p)
    qed
  qed
qed

lemma build_works_frame:
  assumes "build_works_cache_for_ror e ror_id base_url st = Some (res, st')"
  shows "same_runs st st' \<and>
    (\<not> needs_rollback st \<longrightarrow>
       needs_rollback st' =
         (\<exists>exc. res = Inl exc \<and>
            fst (purge_works ror_id (snd (ensure_and_heal_grid_for_ror e ror_id st))) = Some exc))"
proof -
  obtain g st1 where h: "ensure_and_heal_grid_for_ror e ror_id st = (g, st1)"
    by (cases "ensure_and_heal_grid_for_ror e ror_id st")
  have r1: "frame st st1" using heal_frame [of st e ror_id] h by simp
  from assms h obtain researchers where
    l: "list_orcids_for_institution e ror_id g base_url default_rows = Some researchers"
    by (auto simp: build_works_cache_for_ror_def split: option.splits)
  show ?thesis
  proof (cases "researchers = []")
    case True
    then show ?thesis using assms h l r1 by (auto simp: build_works_cache_for_ror_def frame_def)
  next
    case False
    obtain x st2 where pg: "purge_works ror_id st1 = (x, st2)" by (cases "purge_works ror_id st1")
    have r2: "same_runs st st2"
      using same_runs_trans [OF frame_runs [OF r1]] purge_runs(1) [of st1 ror_id] pg by simp
    have s2: "needs_rollback st2 = (x \<noteq> None)" using purge_session(1) [of ror_id st1] pg by simp
    show ?thesis
    proof (cases x)
      case (Some exc)
      then show ?thesis
        using assms h l False pg r2 s2 by (auto simp: build_works_cache_for_ror_def)
    next
      case None
      have f2: "frame st2 st2'" if "frame st2 st2'" for st2' by (rule that)
      show ?thesis
      proof (cases "get_all_profiles_concurrently e (orcid_ids_of researchers)")
        case (Inl exc)
        then show ?thesis
          using assms h l False pg None r2 s2 by (auto simp: build_works_cache_for_ror_def)
      next
        case (Inr profiles_map)
        obtain lr st3 where wl: "works_loop ror_id (trusted_ids_for e ror_id st1)
            profiles_map 0 [] [] st2 = (lr, st3)"
          by (cases "works_loop ror_id (trusted_ids_for e ror_id st1) profiles_map 0 [] [] st2")
        have r3: "frame st2 st3"
          using works_loop_frame [of st2 ror_id "trusted_ids_for e ror_id st1" profiles_map
              0 "[]" "[]"] wl
          by simp
        show ?thesis
        proof (cases lr)
          case (Inl exc)
          then have "res = Inl exc" "st' = st3"
            using assms h l False pg None Inr wl by (simp_all add: build_works_cache_for_ror_def)
          then show ?thesis using r2 s2 r3 pg h None by (auto simp: frame_def same_runs_def)
        next
          case lr: (Inr t)
          obtain n wb sb where t: "t = (n, wb, sb)" by (cases t)
          obtain n1 wb' st4 where f1: "flush_bulk wb save_works st3 = (n1, wb', st4)"
            by (cases "flush_bulk wb save_works st3")
          obtain n2 sb' st5 where f2: "flush_bulk sb save_statuses st4 = (n2, sb', st5)"
            by (cases "flush_bulk sb save_statuses st4")
          have r4: "frame st3 st4"
            using flush_bulk_frame [of save_works st3 wb] save_frame f1 by simp
          have r5: "frame st4 st5"
            using flush_bulk_frame [of save_statuses st4 sb] save_frame f2 by simp
          have "res = Inr n" "st' = st5"
            using assms h l False pg None Inr wl lr t f1 f2
            by (simp_all add: build_works_cache_for_ror_def)
          then show ?thesis
            using frame_trans [OF r3 frame_trans [OF r4 r5]] r2 s2 None
            by (auto simp: frame_def same_runs_def)
        qed
      qed
    qed
  qed
qed

lemma build_fundings_frame:
  assumes "build_fundings_cache_for_ror e ror_id base_url st = Some (res, st')"
  shows "same_runs st st' \<and>
    (\<not> needs_rollback st \<longrightarrow>
       needs_rollback st' =
         (\<exists>exc. res = Inl exc \<and>
            fst (purge_fundings ror_id (snd (ensure_and_heal_grid_for_ror e ror_id st))) = Some exc))"
proof -
  obtain g st1 where h: "ensure_and_heal_grid_for_ror e ror_id st = (g, st1)"
    by (cases "ensure_and_heal_grid_for_ror e ror_id st")
  have r1: "frame st st1" using heal_frame [of st e ror_id] h by simp
  from assms h obtain researchers where
    l: "list_orcids_for_institution e ror_id g base_url default_rows = Some researchers"
    by (auto simp: build_fundings_cache_for_ror_def split: option.splits)
  show ?thesis
  proof (cases "researchers = []")
    case True
    then show ?thesis
      using assms h l r1 by (auto simp: build_fundings_cache_for_ror_def frame_def)
  next
    case False
    obtain x st2 where pg: "purge_fundings ror_id st1 = (x, st2)"
      by (cases "purge_fundings ror_id st1")
    have r2: "same_runs st st2"
      using same_runs_trans [OF frame_runs [OF r1]] purge_runs(2) [of st1 ror_id] pg by simp
    have s2: "needs_rollback st2 = (x \<noteq> None)" using purge_session(2) [of ror_id st1] pg by simp
    show ?thesis
    proof (cases x)
      case (Some exc)
      then show ?thesis
        using assms h l False pg r2 s2 by (auto simp: build_fundings_cache_for_ror_def)
    next
      case None
      show ?thesis
      proof (cases "get_all_profiles_concurrently e (orcid_ids_of researchers)")
        case (Inl exc)
        then show ?thesis
          using assms h l False pg None r2 s2 by (auto simp: build_fundings_cache_for_ror_def)
      next
        case (Inr profiles_map)
        obtain lr st3 where wl: "fundings_loop ror_id profiles_map 0 [] st2 = (lr, st3)"
          by (cases "fundings_loop ror_id profiles_map 0 [] st2")
        have r3: "frame st2 st3"
          using fundings_loop_frame [of st2 ror_id profiles_map 0 "[]"] wl by simp
        show ?thesis
        proof (cases lr)
          case (Inl exc)
          then have "res = Inl exc" "st' = st3"
            using assms h l False pg None Inr wl
            by (simp_all add: build_fundings_cache_for_ror_def)
          then show ?thesis using r2 s2 r3 pg h None by (auto simp: frame_def same_runs_def)
        next
          case lr: (Inr t)
          obtain n fb where t: "t = (n, fb)" by (cases t)
          obtain n1 fb' st4 where f1: "flush_bulk fb save_fundings st3 = (n1, fb', st4)"
            by (cases "flush_bulk fb save_fundings st3")
          have r4: "frame st3 st4"
            using flush_bulk_frame [of save_fundings st3 fb] save_frame f1 by simp
          have "res = Inr n" "st' = st4"
            using assms h l False pg None Inr wl lr t f1
            by (simp_all add: build_fundings_cache_for_ror_def)
          then show ?thesis
            using frame_trans [OF r3 r4] r2 s2 None by (auto simp: frame_def same_runs_def)
        qed
      qed
    qed
  qed
qed

lemma build_works_runs:
  "build_works_cache_for_ror e ror_id base_url st = Some (res, st') \<Longrightarrow> same_runs st st'"
  using build_works_frame by blast

lemma build_fundings_runs:
  "build_fundings_cache_for_ror e ror_id base_url st = Some (res, st') \<Longrightarrow> same_runs st st'"
  using build_fundings_frame by blast

lemma new_runs_after:
  "same_runs st st1 \<Longrightarrow> new_runs st1 st2 ws fs \<Longrightarrow> new_runs st st2 ws fs"
  by (simp add: same_runs_def new_runs_def)




lemma two_pages_default_rows:
  "list_orcids_for_institution search_env ''02ap3w078'' JNull ''https://api.orcid.org/v3.0''
     default_rows = Some [person ''0000-0001'' ''Ana'', person ''0000-0002'' ''Luis'']"
proof -
  have g: "fst (safe_get (two_pages_api 0) default_retries) =
      Some \<lparr>status_code = 200, body = Some (JDict [(''expanded-result'',
          JList [person ''0000-0001'' ''Ana'', person ''0000-0002'' ''Luis''])])\<rparr>"
    by (rule safe_get_first_200) (simp_all add: two_pages_api_def ok_json_def)
  have p: "page_assignments (two_pages_api 0) default_rows =
     ([(''0000-0001'', person ''0000-0001'' ''Ana''), (''0000-0002'', person ''0000-0002'' ''Luis'')],
      False)"
    unfolding page_assignments_def g
    by (simp add: person_def record_key_def py_get_def bind_exc_def py_or_def py_strip_def
        is_space_def default_rows_def)
  have sp: "search_performed search_env ''02ap3w078'' JNull ''https://api.orcid.org/v3.0''"
    by (simp add: search_performed_def search_env_def py_or_str_def query_parts_def)
  have api: "institution_api search_env ''02ap3w078'' JNull = two_pages_api"
    by (simp add: institution_api_def search_env_def)
  have st: "stops_at two_pages_api default_rows 0 0"
    by (simp add: stops_at_def page_at_def p)
  show ?thesis
    using search_pages_stops [OF st, of "[]"]
    by (simp add: list_orcids_performed [OF sp] api pages_assigned_def page_at_def p
        assign_all_def)
qed


lemma null_group_heal:
  "users st = [] \<Longrightarrow> ensure_and_heal_grid_for_ror null_group_env ''02ap3w078'' st = (JNull, st)"
  by (rule heal_lookup_failed)
     (simp_all add: lookup_failed_def null_group_env_def search_env_def status_only_def)

lemma null_group_search:
  "list_orcids_for_institution null_group_env ''02ap3w078'' JNull ''https://api.orcid.org/v3.0''
     default_rows = Some [person ''0000-0001'' ''Ana'', person ''0000-0002'' ''Luis'']"
proof -
  have "list_orcids_for_institution null_group_env ''02ap3w078'' JNull
      ''https://api.orcid.org/v3.0'' default_rows =
     list_orcids_for_institution search_env ''02ap3w078'' JNull ''https://api.orcid.org/v3.0''
     default_rows"
    by (simp add: list_orcids_for_institution_def null_group_env_def)
  then show ?thesis by (simp only: two_pages_default_rows)
qed

lemma two_ids:
  "orcid_ids_of [person ''0000-0001'' ''Ana'', person ''0000-0002'' ''Luis''] =
     [''0000-0001'', ''0000-0002'']"
  by (simp add: orcid_ids_of_def person_def)

lemma null_group_fetch:
  "fetch_single_profile (record_api null_group_env oid) = Inr fetched_null_group"
proof -
  have "fst (safe_get (record_api null_group_env oid) default_retries) =
      Some \<lparr>status_code = 200, body = Some null_group_profile\<rparr>"
    by (rule safe_get_first_200) (simp_all add: null_group_env_def ok_json_def)
  then show ?thesis
    by (simp add: fetch_single_profile_def null_group_profile_def fetched_null_group_def)
qed

lemma null_group_profiles:
  "get_all_profiles_concurrently null_group_env [''0000-0001'', ''0000-0002''] =
     Inr [(''0000-0001'', fetched_null_group), (''0000-0002'', fetched_null_group)]"
proof -
  have t: "get_client_credentials_token null_group_env = Inr (JStr ''t0k3n'')"
    by (simp add: get_client_credentials_token_def null_group_env_def)
  have c: "has_credentials null_group_env"
    unfolding has_credentials_def t by (simp add: null_group_env_def configured_def)
  have a: "as_completed null_group_env [''0000-0001'', ''0000-0002''] =
      [''0000-0001'', ''0000-0002'']"
    by (simp add: null_group_env_def search_env_def)
  have tr: "truthy fetched_null_group" by (simp add: fetched_null_group_def)
  show ?thesis
    using c tr by (simp add: profiles_fetched [OF t] a collect_profile_def null_group_fetch)
qed

lemma null_group_status:
  "extract_status_from_profile fetched_null_group ror_id oid trusted_ids = Inl (not_iterable JNull)"
  by (simp add: extract_status_from_profile_def fetched_null_group_def classifier_defs
      not_iterable_def)

lemma null_group_fundings:
  "fundings_of_profile ror_id oid fetched_null_group = Inr []"
  by (simp add: fundings_of_profile_def rows_of_profile_def fetched_null_group_def
      get_or_empty_def py_get_def bind_exc_def py_or_def)

lemma null_group_build_works:
  assumes u: "users st = []" and c: "fst (purge_works ''02ap3w078'' st) = None"
  shows "build_works_cache_for_ror null_group_env ''02ap3w078'' ''https://api.orcid.org/v3.0'' st =
     Some (Inl (not_iterable JNull), snd (purge_works ''02ap3w078'' st))"
proof -
  obtain st2 where p2: "purge_works ''02ap3w078'' st = (None, st2)"
    using c by (cases "purge_works ''02ap3w078'' st") auto
  have t: "truthy fetched_null_group" by (simp add: fetched_null_group_def)
  show ?thesis
    unfolding build_works_cache_for_ror_def null_group_heal [OF u]
    using t by (simp add: null_group_search two_ids null_group_profiles p2 null_group_status)
qed

lemma null_group_build_fundings:
  assumes u: "users st = []" and c: "fst (purge_fundings ''02ap3w078'' st) = None"
  shows "build_fundings_cache_for_ror null_group_env ''02ap3w078'' ''https://api.orcid.org/v3.0'' st =
     Some (Inr 0, snd (purge_fundings ''02ap3w078'' st))"
proof -
  obtain st2 where p2: "purge_fundings ''02ap3w078'' st = (None, st2)"
    using c by (cases "purge_fundings ''02ap3w078'' st") auto
  have t: "truthy fetched_null_group" by (simp add: fetched_null_group_def)
  show ?thesis
    unfolding build_fundings_cache_for_ror_def null_group_heal [OF u]
    using t by (simp add: null_group_search two_ids null_group_profiles p2 null_group_fundings
        flush_if_full_def flush_bulk_def)
qed



lemma null_group_full_build:
  "map_option (\<lambda>r. (fst r, work_cache_run (snd r), funding_cache_run (snd r)))
     (cache_full_build null_group_env ''02ap3w078'' ''https://api.orcid.org/v3.0''
        1762190000 1762190007 1762190008 1762190009 cached_store) =
   Some (None,
     [\<lparr>run_ror_id = ''02ap3w078'', run_status = ''running'', run_rows_count = 0,
       run_error = None, run_started_at = 1762190000, run_finished_at = Some 1762190007\<rparr>],
     [\<lparr>run_ror_id = ''02ap3w078'', run_status = ''success'', run_rows_count = 0,
       run_error = None, run_started_at = 1762190008, run_finished_at = Some 1762190009\<rparr>])"
proof -
  define st1 where "st1 = snd (commit_changes
      (add_run WorkCacheRun (running_run ''02ap3w078'' 1762190000)) cached_store)"
  have c1: "commit_changes (add_run WorkCacheRun (running_run ''02ap3w078'' 1762190000))
      cached_store = (None, st1)"
    by (simp add: st1_def commit_changes_def next_commit_def cached_store_def)
  have s1: "users st1 = []" "fst (purge_works ''02ap3w078'' st1) = None"
    by (simp_all add: st1_def commit_changes_def next_commit_def cached_store_def add_run_def
        purge_works_def)
  define st2 where "st2 = snd (purge_works ''02ap3w078'' st1)"
  have b1: "build_works_cache_for_ror null_group_env ''02ap3w078'' ''https://api.orcid.org/v3.0''
      st1 = Some (Inl (not_iterable JNull), st2)"
    unfolding st2_def by (rule null_group_build_works [OF s1])
  define st3 where "st3 = snd (commit_changes (update_run WorkCacheRun 0
      (\<lambda>r. r\<lparr>run_finished_at := Some 1762190007\<rparr>)) st2)"
  have c2: "commit_changes (update_run WorkCacheRun 0
      (\<lambda>r. r\<lparr>run_finished_at := Some 1762190007\<rparr>)) st2 = (None, st3)"
    by (simp add: st3_def st2_def st1_def commit_changes_def next_commit_def cached_store_def
        add_run_def purge_works_def)
  have w: "sync_step WorkCacheRun
      (build_works_cache_for_ror null_group_env ''02ap3w078'' ''https://api.orcid.org/v3.0'')
      ''02ap3w078'' 1762190000 1762190007 cached_store = Some (None, st3)"
  proof -
    have k: "length (runs_of WorkCacheRun cached_store) = 0"
      by (simp add: runs_of_def cached_store_def)
    show ?thesis by (simp add: sync_step_def c1 b1 c2 k)
  qed
  define st4 where "st4 = snd (commit_changes
      (add_run FundingCacheRun (running_run ''02ap3w078'' 1762190008)) st3)"
  have c3: "commit_changes (add_run FundingCacheRun (running_run ''02ap3w078'' 1762190008))
      st3 = (None, st4)"
    by (simp add: st4_def st3_def st2_def st1_def commit_changes_def next_commit_def
        cached_store_def add_run_def update_run_def purge_works_def)
  have s4: "users st4 = []" "fst (purge_fundings ''02ap3w078'' st4) = None"
    by (simp_all add: st4_def st3_def st2_def st1_def commit_changes_def next_commit_def
        cached_store_def add_run_def update_run_def purge_works_def purge_fundings_def)
  define st5 where "st5 = snd (purge_fundings ''02ap3w078'' st4)"
  have b2: "build_fundings_cache_for_ror null_group_env ''02ap3w078''
      ''https://api.orcid.org/v3.0'' st4 = Some (Inr 0, st5)"
    unfolding st5_def by (rule null_group_build_fundings [OF s4])
  have r3: "funding_cache_run st3 = []"
    by (simp add: st3_def st2_def st1_def commit_changes_def next_commit_def
        cached_store_def add_run_def update_run_def purge_works_def)
  have f: "sync_step FundingCacheRun
      (build_fundings_cache_for_ror null_group_env ''02ap3w078'' ''https://api.orcid.org/v3.0'')
      ''02ap3w078'' 1762190008 1762190009 st3 =
     Some (commit_changes (update_run FundingCacheRun 0
        (\<lambda>r. r\<lparr>run_status := ''success'', run_rows_count := 0,
                run_finished_at := Some 1762190009\<rparr>)) st5)"
  proof -
    have k: "length (runs_of FundingCacheRun st3) = 0" by (simp add: runs_of_def r3)
    show ?thesis by (simp add: sync_step_def c3 b2 k)
  qed
  have cf: "cache_full_build null_group_env ''02ap3w078'' ''https://api.orcid.org/v3.0''
        1762190000 1762190007 1762190008 1762190009 cached_store =
     Some (commit_changes (update_run FundingCacheRun 0
        (\<lambda>r. r\<lparr>run_status := ''success'', run_rows_count := 0,
                run_finished_at := Some 1762190009\<rparr>)) st5)"
    by (simp add: cache_full_build_def w f)
  show ?thesis
    unfolding cf
    by (simp add: st5_def st4_def st3_def st2_def st1_def commit_changes_def next_commit_def
        cached_store_def add_run_def update_run_def purge_works_def purge_fundings_def
        running_run_def cached_work_def)
qed




lemma logged_invocation:
  assumes w: "\<And>model_class ror_id status n err now st.
    \<exists>ws fs. new_runs st (writer model_class ror_id status n err now st) ws fs \<and>
     length (ws @ fs) \<le> 1 \<and>
     (\<forall>r \<in> set (ws @ fs). run_finished_at r = Some (run_started_at r) \<and> run_status r = status)"
    and fr: "same_runs st (snd outcome)"
  shows "\<exists>ws fs. new_runs st (logged writer model_class ror_id now outcome) ws fs \<and>
     length (ws @ fs) \<le> 1 \<and> (\<forall>r \<in> set (ws @ fs). well_logged r)"
proof -
  from logged_rows [of writer outcome model_class ror_id now] w obtain ws fs where
    "new_runs (snd outcome) (logged writer model_class ror_id now outcome) ws fs"
    "length (ws @ fs) \<le> 1" "\<forall>r \<in> set (ws @ fs). well_logged r"
    by blast
  then show ?thesis using new_runs_after [OF fr] by blast
qed

text \<open>
  Claim C10 as stated fails. The routes \<^verbatim>\<open>cache_full_build\<close> and \<^verbatim>\<open>cache_fundings_build\<close>
  write to the same two run logs: they commit a row with status \<open>running\<close> before the
  rebuild and close it with a later reading of the clock. A Grants rebuild that succeeds
  leaves a row whose finish time differs from its start time, and a Publications rebuild
  that raises inside \<^verbatim>\<open>cache_full_build\<close> leaves a row that is still \<open>running\<close>.
\<close>

theorem C10_counterexample:
  "map_option (\<lambda>r. funding_cache_run (snd r))
     (cache_fundings_build failing_search_env ''02ap3w078'' ''https://pub.orcid.org/v3.0''
        1762190000 1762190007 cached_store)
     = Some [\<lparr>run_ror_id = ''02ap3w078'', run_status = ''success'', run_rows_count = 0,
              run_error = None, run_started_at = 1762190000,
              run_finished_at = Some 1762190007\<rparr>]
   \<and> map_option (\<lambda>r. map run_status (work_cache_run (snd r)))
       (cache_full_build null_group_env ''02ap3w078'' ''https://api.orcid.org/v3.0''
          1762190000 1762190007 1762190008 1762190009 cached_store)
     = Some [''running'']
   \<and> map_option (\<lambda>r. map well_logged (work_cache_run (snd r) @ funding_cache_run (snd r)))
       (cache_full_build null_group_env ''02ap3w078'' ''https://api.orcid.org/v3.0''
          1762190000 1762190007 1762190008 1762190009 cached_store)
     = Some [False, False]"
proof -
  have g: "fst (safe_get (institution_api failing_search_env ''02ap3w078'' JNull 0)
      default_retries) = None"
    by (rule safe_get_never_final)
       (simp add: institution_api_def failing_search_env_def status_only_def is_final_def)
  define st1 where "st1 = snd (commit_changes
      (add_run FundingCacheRun (running_run ''02ap3w078'' 1762190000)) cached_store)"
  have c1: "commit_changes (add_run FundingCacheRun (running_run ''02ap3w078'' 1762190000))
      cached_store = (None, st1)"
    by (simp add: st1_def commit_changes_def next_commit_def cached_store_def)
  have u1: "users st1 = []"
    by (simp add: st1_def commit_changes_def next_commit_def cached_store_def add_run_def)
  have b: "build_fundings_cache_for_ror failing_search_env ''02ap3w078''
      ''https://pub.orcid.org/v3.0'' st1 = Some (Inr 0, st1)"
  proof -
    have h: "ensure_and_heal_grid_for_ror failing_search_env ''02ap3w078'' st1 = (JNull, st1)"
      by (simp add: ensure_and_heal_grid_for_ror_def fetch_grid_from_ror_def
          failing_search_env_def u1)
    show ?thesis
      using build_fundings_empty [of failing_search_env "''02ap3w078''" st1
          "''https://pub.orcid.org/v3.0''"] first_page_failed [OF g]
      by (simp add: h)
  qed
  have k: "length (funding_cache_run cached_store) = 0" by (simp add: cached_store_def)
  have a: "map_option (\<lambda>r. funding_cache_run (snd r))
     (cache_fundings_build failing_search_env ''02ap3w078'' ''https://pub.orcid.org/v3.0''
        1762190000 1762190007 cached_store)
     = Some [\<lparr>run_ror_id = ''02ap3w078'', run_status = ''success'', run_rows_count = 0,
              run_error = None, run_started_at = 1762190000,
              run_finished_at = Some 1762190007\<rparr>]"
    unfolding cache_fundings_build_def k
    by (simp add: c1 b)
       (simp add: st1_def commit_changes_def next_commit_def cached_store_def add_run_def
          update_run_def running_run_def)
  show ?thesis
    using a null_group_full_build
    by (cases "cache_full_build null_group_env ''02ap3w078'' ''https://api.orcid.org/v3.0''
          1762190000 1762190007 1762190008 1762190009 cached_store")
       (auto simp: well_logged_def)
qed

text \<open>
  Claim C10, amended. An invocation through the command-line writer
  \<^verbatim>\<open>_log_execution_run\<close> or the web writer \<^verbatim>\<open>_log_run_web\<close> appends at most one row to the
  run logs, and a row it appends has equal start and finish timestamps and the status
  \<open>success\<close> or \<open>failed\<close>, never \<open>running\<close>: the rebuild itself writes no run-log row, and
  these writers run only once the rebuild has returned or raised.
\<close>

theorem C10_run_rows_closed:
  "cli_sync_works e ror base_url now st = Some st' \<or>
   cli_sync_fundings e ror base_url now st = Some st' \<or>
   rebuild_cache e target ror base_url now st = Some st' \<longrightarrow>
     (\<exists>ws fs. new_runs st st' ws fs \<and> length (ws @ fs) \<le> 1 \<and>
        (\<forall>r \<in> set (ws @ fs).
           run_finished_at r = Some (run_started_at r) \<and>
           (run_status r = ''success'' \<or> run_status r = ''failed'') \<and>
           run_status r \<noteq> ''running''))"
proof
  assume a: "cli_sync_works e ror base_url now st = Some st' \<or>
   cli_sync_fundings e ror base_url now st = Some st' \<or>
   rebuild_cache e target ror base_url now st = Some st'"
  have wl: "well_logged r \<Longrightarrow> run_finished_at r = Some (run_started_at r) \<and>
           (run_status r = ''success'' \<or> run_status r = ''failed'') \<and>
           run_status r \<noteq> ''running''" for r
    by (auto simp: well_logged_def)
  have "\<exists>ws fs. new_runs st st' ws fs \<and> length (ws @ fs) \<le> 1 \<and>
        (\<forall>r \<in> set (ws @ fs). well_logged r)"
    using a
  proof (elim disjE)
    assume "cli_sync_works e ror base_url now st = Some st'"
    then obtain outcome where
      b: "build_works_cache_for_ror e (py_strip ror) base_url st = Some outcome"
      and s: "st' = logged log_execution_run WorkCacheRun (py_strip ror) now outcome"
      by (auto simp: cli_sync_works_def)
    have "same_runs st (snd outcome)" using build_works_runs [of e _ base_url st] b
      by (cases outcome) simp
    from logged_invocation [OF log_execution_run_rows this] show ?thesis unfolding s .
  next
    assume "cli_sync_fundings e ror base_url now st = Some st'"
    then obtain outcome where
      b: "build_fundings_cache_for_ror e (py_strip ror) base_url st = Some outcome"
      and s: "st' = logged log_execution_run FundingCacheRun (py_strip ror) now outcome"
      by (auto simp: cli_sync_fundings_def)
    have "same_runs st (snd outcome)" using build_fundings_runs [of e _ base_url st] b
      by (cases outcome) simp
    from logged_invocation [OF log_execution_run_rows this] show ?thesis unfolding s .
  next
    assume r: "rebuild_cache e target ror base_url now st = Some st'"
    show ?thesis
    proof (cases "target = ''works''")
      case True
      with r obtain outcome where
        b: "build_works_cache_for_ror e ror base_url st = Some outcome"
        and s: "st' = logged log_run_web WorkCacheRun ror now outcome"
        by (auto simp: rebuild_cache_def)
      have "same_runs st (snd outcome)" using build_works_runs [of e _ base_url st] b
        by (cases outcome) simp
      from logged_invocation [OF log_run_web_rows this] show ?thesis unfolding s .
    next
      case False
      show ?thesis
      proof (cases "target = ''fundings''")
        case True
        with r False obtain outcome where
          b: "build_fundings_cache_for_ror e ror base_url st = Some outcome"
          and s: "st' = logged log_run_web FundingCacheRun ror now outcome"
          by (auto simp: rebuild_cache_def)
        have "same_runs st (snd outcome)" using build_fundings_runs [of e _ base_url st] b
          by (cases outcome) simp
        from logged_invocation [OF log_run_web_rows this] show ?thesis unfolding s .
      next
        case nf: False
        then have "st' = st" using r False by (simp add: rebuild_cache_def)
        then have "new_runs st st' [] []" by (simp add: new_runs_def)
        then show ?thesis by (intro exI [of _ "[]"]) simp
      qed
    qed
  qed
  then show "\<exists>ws fs. new_runs st st' ws fs \<and> length (ws @ fs) \<le> 1 \<and>
        (\<forall>r \<in> set (ws @ fs).
           run_finished_at r = Some (run_started_at r) \<and>
           (run_status r = ''success'' \<or> run_status r = ''failed'') \<and>
           run_status r \<noteq> ''running'')"
    using wl by blast
qed

theorem C10_run_rows_closed_witness:
  "rebuild_cache failing_search_env ''works'' ''02ap3w078'' ''https://api.orcid.org/v3.0''
      1762190000 cached_store
     = Some (log_run_web WorkCacheRun ''02ap3w078'' ''success'' 0 None 1762190000 cached_store)
   \<and> work_cache_run (log_run_web WorkCacheRun ''02ap3w078'' ''success'' 0 None 1762190000
        cached_store) = [success_run]
   \<and> run_finished_at success_run = Some (run_started_at success_run)
   \<and> run_status success_run \<noteq> ''running''"
proof -
  let ?st' = "log_run_web WorkCacheRun ''02ap3w078'' ''success'' 0 None 1762190000 cached_store"
  have g: "fst (safe_get (institution_api failing_search_env ''02ap3w078'' JNull 0)
      default_retries) = None"
    by (rule safe_get_never_final)
       (simp add: institution_api_def failing_search_env_def status_only_def is_final_def)
  have b: "build_works_cache_for_ror failing_search_env ''02ap3w078''
      ''https://api.orcid.org/v3.0'' cached_store = Some (Inr 0, cached_store)"
    using build_works_empty [of failing_search_env "''02ap3w078''" cached_store
        "''https://api.orcid.org/v3.0''"] first_page_failed [OF g]
    by (simp add: failing_env_heal)
  have r: "rebuild_cache failing_search_env ''works'' ''02ap3w078''
      ''https://api.orcid.org/v3.0'' 1762190000 cached_store = Some ?st'"
    by (simp add: rebuild_cache_def b logged_def)
  have w: "work_cache_run ?st' = [success_run]"
    by (simp add: log_run_web_def next_commit_def add_run_def cached_store_def success_run_def)
  from C10_run_rows_closed [of failing_search_env "''02ap3w078''"
      "''https://api.orcid.org/v3.0''" 1762190000 cached_store ?st' "''works''"] r
  obtain ws fs where n: "new_runs cached_store ?st' ws fs"
    and p: "\<forall>r \<in> set (ws @ fs). run_finished_at r = Some (run_started_at r) \<and>
           (run_status r = ''success'' \<or> run_status r = ''failed'') \<and>
           run_status r \<noteq> ''running''"
    by blast
  have "ws = [success_run]" using n w by (simp add: new_runs_def cached_store_def)
  then have "run_finished_at success_run = Some (run_started_at success_run) \<and>
      run_status success_run \<noteq> ''running''"
    using p by simp
  then show ?thesis using r w by blast
qed

end
